theory Spec2Isabelle
  imports Complex_Main
begin

section \<open>The atmosphere grid of grid.py\<close>

text \<open>
  A shallow embedding of \<^verbatim>\<open>src/grid.py\<close>: the classes \<^verbatim>\<open>Node\<close> and \<^verbatim>\<open>Grid\<close>
  with the methods \<^verbatim>\<open>__init__\<close>, \<^verbatim>\<open>lookup\<close>, \<^verbatim>\<open>locate\<close>, \<^verbatim>\<open>find_neighbors\<close>
  and \<^verbatim>\<open>find_derivs\<close>.

  Conventions of the embedding.
  \<^item> The coordinates \<^verbatim>\<open>Teff\<close> and \<^verbatim>\<open>logg\<close> are Python floats; they are modelled as
    reals, which is what the comparisons \<^verbatim>\<open>==\<close>, \<^verbatim>\<open><\<close>, \<^verbatim>\<open>>=\<close> of the source compute
    on every float that is not NaN.
  \<^item> Python integers are \<open>int\<close>; an index into a NumPy array may be negative and then
    counts from the end, and an index outside the array raises \<^verbatim>\<open>IndexError\<close>.
  \<^item> A raised exception is the \<open>Inl\<close> branch of a result \<open>error + 'a\<close>.
  \<^item> A 1-D NumPy array is a list, a 2-D array a list of rows; an object array cell
    holding \<^verbatim>\<open>None\<close> is \<open>None\<close>.
  \<^item> \<^verbatim>\<open>self\<close> is a record that each method takes and the constructor returns.
  \<^item> A \<^verbatim>\<open>for\<close> loop is \<open>for_each\<close> over the list of the values of its loop variable.
\<close>

subsection \<open>Exceptions\<close>

datatype error =
    Exception string     \<comment> \<open>\<^verbatim>\<open>raise Exception('Empty grid')\<close>\<close>
  | IndexError string    \<comment> \<open>raised by \<^verbatim>\<open>locate\<close> and by an index out of bounds\<close>
  | OSError string       \<comment> \<open>\<^verbatim>\<open>h5py.File\<close> cannot open the file\<close>

definition outside_msg :: "string \<Rightarrow> string" where
  "outside_msg name = name @ '' outside axis range''"

definition bounds_msg :: string where
  "bounds_msg = ''index is out of bounds''"

subsection \<open>NumPy arrays\<close>

definition np_index :: "nat \<Rightarrow> int \<Rightarrow> error + nat" where
  \<comment> \<open>the position that index \<open>i\<close> denotes in an axis of size \<open>n\<close>\<close>
  "np_index n i =
     (if 0 \<le> i \<and> i < int n then Inr (nat i)
      else if i < 0 \<and> - int n \<le> i then Inr (nat (int n + i))
      else Inl (IndexError bounds_msg))"

definition np_get :: "'a list \<Rightarrow> int \<Rightarrow> error + 'a" where
  \<comment> \<open>\<^verbatim>\<open>a[i]\<close>\<close>
  "np_get a i = (case np_index (length a) i of Inl e \<Rightarrow> Inl e | Inr p \<Rightarrow> Inr (a ! p))"

definition np_get2 :: "'a list list \<Rightarrow> int \<Rightarrow> int \<Rightarrow> error + 'a" where
  \<comment> \<open>\<^verbatim>\<open>a[i,j]\<close>\<close>
  "np_get2 a i j = (case np_get a i of Inl e \<Rightarrow> Inl e | Inr row \<Rightarrow> np_get row j)"

definition np_set2 :: "'a list list \<Rightarrow> int \<Rightarrow> int \<Rightarrow> 'a \<Rightarrow> error + 'a list list" where
  \<comment> \<open>\<^verbatim>\<open>a[i,j] = v\<close>, returning the updated array\<close>
  "np_set2 a i j v =
     (case np_index (length a) i of
        Inl e \<Rightarrow> Inl e
      | Inr p \<Rightarrow>
          (case np_index (length (a ! p)) j of
             Inl e \<Rightarrow> Inl e
           | Inr q \<Rightarrow> Inr (a[p := (a ! p)[q := v]])))"

definition np_full2 :: "nat \<Rightarrow> nat \<Rightarrow> 'a \<Rightarrow> 'a list list" where
  \<comment> \<open>an \<open>n \<times> m\<close> array with every cell \<open>v\<close>: \<^verbatim>\<open>np.empty(.., dtype=object)\<close> is filled
      with \<^verbatim>\<open>None\<close>, \<^verbatim>\<open>np.zeros(.., dtype=bool)\<close> with \<^verbatim>\<open>False\<close>\<close>
  "np_full2 n m v = replicate n (replicate m v)"

definition np_unique :: "real list \<Rightarrow> real list" where
  \<comment> \<open>\<^verbatim>\<open>np.unique\<close>: sort, then keep the first element of every run of equal ones\<close>
  "np_unique xs = remdups_adj (sort xs)"

definition np_where :: "'a \<Rightarrow> 'a list \<Rightarrow> nat list" where
  \<comment> \<open>\<^verbatim>\<open>np.where(v == a)[0]\<close>: the positions that hold \<open>v\<close>, ascending\<close>
  "np_where v a = filter (\<lambda>p. v = a ! p) [0..<length a]"

definition np_where_first :: "'a \<Rightarrow> 'a list \<Rightarrow> error + int" where
  \<comment> \<open>\<^verbatim>\<open>np.where(v == a)[0][0]\<close>\<close>
  "np_where_first v a =
     (case np_where v a of [] \<Rightarrow> Inl (IndexError bounds_msg) | p # _ \<Rightarrow> Inr (int p))"

definition py_range :: "int \<Rightarrow> int \<Rightarrow> int list" where
  \<comment> \<open>\<^verbatim>\<open>range(lo, hi)\<close>\<close>
  "py_range lo hi = [lo..hi - 1]"

fun for_each :: "'i list \<Rightarrow> ('i \<Rightarrow> 's \<Rightarrow> error + 's) \<Rightarrow> 's \<Rightarrow> error + 's" where
  "for_each [] body s = Inr s"
| "for_each (x # xs) body s =
     (case body x s of Inl e \<Rightarrow> Inl e | Inr s' \<Rightarrow> for_each xs body s')"

subsection \<open>Node\<close>

text \<open>
  What \<^verbatim>\<open>h5py.File(filename, 'r')\<close> gives: the attributes \<^verbatim>\<open>Teff\<close> and \<^verbatim>\<open>logg\<close> and
  the dataset \<^verbatim>\<open>data\<close>. The files are a parameter of the model: a map from file names
  to contents, undefined where the file cannot be opened.
\<close>

record 'd h5file =
  attrs_Teff :: real
  attrs_logg :: real
  dataset :: 'd

record 'd Node =
  filename :: string
  Teff :: real
  logg :: real
  data :: 'd

definition Node_init :: "(string \<rightharpoonup> 'd h5file) \<Rightarrow> string \<Rightarrow> error + 'd Node" where
  "Node_init files name =
     (case files name of
        None \<Rightarrow> Inl (OSError name)
      | Some f \<Rightarrow>
          Inr \<lparr>filename = name, Teff = attrs_Teff f, logg = attrs_logg f, data = dataset f\<rparr>)"

definition isinstance_Node :: "'d Node option \<Rightarrow> bool" where
  \<comment> \<open>\<^verbatim>\<open>isinstance(cell, Node)\<close> on a cell of the object array\<close>
  "isinstance_Node cell = (case cell of None \<Rightarrow> False | Some _ \<Rightarrow> True)"

subsection \<open>Grid\<close>

type_synonym stencil = "bool list list"

record 'd Grid =
  Teff_axis :: "real list"
  logg_axis :: "real list"
  n_Teff :: nat
  n_logg :: nat
  nodes :: "'d Node option list list"
  neighbors :: "stencil option list list"
  debug :: bool

subsubsection \<open>find_neighbors\<close>

text \<open>
  The body of the inner loop of \<^verbatim>\<open>find_neighbors\<close>, for the offsets \<open>k\<close> (outer loop)
  and \<open>h\<close> (inner loop). The parameter \<^verbatim>\<open>show\<close> only prints and is left out.
\<close>

definition neighbor_probe ::
    "('d, 'x) Grid_scheme \<Rightarrow> int \<times> int \<Rightarrow> int \<Rightarrow> int \<Rightarrow> stencil \<Rightarrow> error + stencil" where
  "neighbor_probe self ij k h stencil =
     (let j_Teff = fst ij + h; j_logg = snd ij + k in
      if (0 \<le> j_Teff \<and> j_Teff < int (n_Teff self)) \<and> (0 \<le> j_logg \<and> j_logg < int (n_logg self))
      then
        (case np_get2 (nodes self) j_Teff j_logg of
           Inl e \<Rightarrow> Inl e
         | Inr cell \<Rightarrow>
             if isinstance_Node cell then np_set2 stencil (h + 1) (k + 1) True
             else Inr stencil)
      else Inr stencil)"

definition find_neighbors :: "('d, 'x) Grid_scheme \<Rightarrow> int \<times> int \<Rightarrow> error + stencil" where
  "find_neighbors self ij =
     for_each (py_range (- 1) 2)
       (\<lambda>k. for_each (py_range (- 1) 2) (\<lambda>h. neighbor_probe self ij k h))
       (np_full2 3 3 False)"

subsubsection \<open>The constructor\<close>

fun read_nodes :: "(string \<rightharpoonup> 'd h5file) \<Rightarrow> string list \<Rightarrow> error + 'd Node list" where
  "read_nodes files [] = Inr []"
| "read_nodes files (name # names) =
     (case Node_init files name of
        Inl e \<Rightarrow> Inl e
      | Inr node \<Rightarrow>
          (case read_nodes files names of Inl e \<Rightarrow> Inl e | Inr rest \<Rightarrow> Inr (node # rest)))"

definition place_node :: "'d Node \<Rightarrow> 'd Grid \<Rightarrow> error + 'd Grid" where
  \<comment> \<open>the body of the loop \<^verbatim>\<open>for node in nodes_list\<close>\<close>
  "place_node node self =
     (case np_where_first (Teff node) (Teff_axis self) of
        Inl e \<Rightarrow> Inl e
      | Inr i_Teff \<Rightarrow>
          (case np_where_first (logg node) (logg_axis self) of
             Inl e \<Rightarrow> Inl e
           | Inr i_logg \<Rightarrow>
               (case np_set2 (nodes self) i_Teff i_logg (Some node) of
                  Inl e \<Rightarrow> Inl e
                | Inr a \<Rightarrow> Inr (self\<lparr>nodes := a\<rparr>))))"

definition store_neighbors :: "int \<Rightarrow> int \<Rightarrow> 'd Grid \<Rightarrow> error + 'd Grid" where
  \<comment> \<open>\<^verbatim>\<open>self.neighbors[i_Teff,i_logg] = self.find_neighbors((i_Teff,i_logg))\<close>\<close>
  "store_neighbors i_logg i_Teff self =
     (case find_neighbors self (i_Teff, i_logg) of
        Inl e \<Rightarrow> Inl e
      | Inr stencil \<Rightarrow>
          (case np_set2 (neighbors self) i_Teff i_logg (Some stencil) of
             Inl e \<Rightarrow> Inl e
           | Inr a \<Rightarrow> Inr (self\<lparr>neighbors := a\<rparr>)))"

text \<open>
  \<^verbatim>\<open>Grid.__init__\<close>. The attributes of \<^verbatim>\<open>self\<close> are assigned one after the other; in
  the record an attribute not yet assigned is \<open>[]\<close> (or \<open>False\<close>), and no method reads
  it before its assignment.
\<close>

definition Grid_init ::
    "(string \<rightharpoonup> 'd h5file) \<Rightarrow> string list \<Rightarrow> bool \<Rightarrow> error + 'd Grid" where
  "Grid_init files filenames dbg =
     (if length filenames = 0 then Inl (Exception ''Empty grid'')
      else
        (case read_nodes files filenames of
           Inl e \<Rightarrow> Inl e
         | Inr nodes_list \<Rightarrow>
             (let Ta = np_unique (map Teff nodes_list);
                  La = np_unique (map logg nodes_list);
                  self = \<lparr>Teff_axis = Ta, logg_axis = La,
                          n_Teff = length Ta, n_logg = length La,
                          nodes = np_full2 (length Ta) (length La) None,
                          neighbors = [], debug = False\<rparr>
              in
                (case for_each nodes_list place_node self of
                   Inl e \<Rightarrow> Inl e
                 | Inr self \<Rightarrow>
                     (case for_each (py_range 0 (int (n_logg self)))
                             (\<lambda>i_logg. for_each (py_range 0 (int (n_Teff self)))
                                (store_neighbors i_logg))
                             (self\<lparr>neighbors := np_full2 (n_Teff self) (n_logg self) None\<rparr>) of
                        Inl e \<Rightarrow> Inl e
                      | Inr self \<Rightarrow> Inr (self\<lparr>debug := dbg\<rparr>))))))"

subsubsection \<open>lookup\<close>

definition lookup :: "'d Grid \<Rightarrow> real \<Rightarrow> real \<Rightarrow> error + 'd Node option" where
  "lookup self T g =
     (if T \<in> set (Teff_axis self) \<and> g \<in> set (logg_axis self) then
        (case np_where_first T (Teff_axis self) of
           Inl e \<Rightarrow> Inl e
         | Inr i_Teff \<Rightarrow>
             (case np_where_first g (logg_axis self) of
                Inl e \<Rightarrow> Inl e
              | Inr i_logg \<Rightarrow>
                  (case np_get2 (nodes self) i_Teff i_logg of
                     Inl e \<Rightarrow> Inl e
                   | Inr node \<Rightarrow> if isinstance_Node node then Inr node else Inr None)))
      else Inr None)"

subsubsection \<open>locate\<close>

text \<open>The \<^verbatim>\<open>while\<close> loop of \<^verbatim>\<open>locate_x\<close>, with the state \<open>(k_0, k_1)\<close>.\<close>

function locate_loop :: "real \<Rightarrow> real list \<Rightarrow> int \<Rightarrow> int \<Rightarrow> error + int" where
  "locate_loop x x_axis k_0 k_1 =
     (if k_1 - k_0 > 1 then
        (case np_get x_axis ((k_0 + k_1) div 2) of
           Inl e \<Rightarrow> Inl e
         | Inr a \<Rightarrow>
             if x \<ge> a then locate_loop x x_axis ((k_0 + k_1) div 2) k_1
             else locate_loop x x_axis k_0 ((k_0 + k_1) div 2))
      else Inr k_0)"
  by pat_completeness auto
termination
  by (relation "measure (\<lambda>(x, x_axis, k_0, k_1). nat (k_1 - k_0))") auto

definition locate_x :: "real \<Rightarrow> real list \<Rightarrow> error + int" where
  "locate_x x x_axis =
     (case np_get x_axis 0 of
        Inl e \<Rightarrow> Inl e
      | Inr a0 \<Rightarrow>
          if x = a0 then Inr 0
          else
            (case np_get x_axis (- 1) of
               Inl e \<Rightarrow> Inl e
             | Inr al \<Rightarrow>
                 if x = al then Inr (int (length x_axis) - 2)
                 else locate_loop x x_axis (- 1) (int (length x_axis))))"

text \<open>
  What the \<^verbatim>\<open>if self.debug:\<close> block of \<^verbatim>\<open>locate\<close> evaluates before it prints: the
  axis values at \<open>i\<close>, \<open>i+1\<close>, \<open>j\<close> and \<open>j+1\<close>. The printed text is left out; an index
  out of bounds raises.
\<close>

definition debug_report :: "'d Grid \<Rightarrow> int \<Rightarrow> int \<Rightarrow> error + unit" where
  "debug_report self i j =
     (case np_get (Teff_axis self) i of Inl e \<Rightarrow> Inl e | Inr _ \<Rightarrow>
     (case np_get (Teff_axis self) (i + 1) of Inl e \<Rightarrow> Inl e | Inr _ \<Rightarrow>
     (case np_get (logg_axis self) j of Inl e \<Rightarrow> Inl e | Inr _ \<Rightarrow>
     (case np_get (logg_axis self) (j + 1) of Inl e \<Rightarrow> Inl e | Inr _ \<Rightarrow> Inr ()))))"

definition outside :: "real \<Rightarrow> real list \<Rightarrow> error + bool" where
  \<comment> \<open>\<^verbatim>\<open>(x < x_axis[0]) or (x > x_axis[-1])\<close>\<close>
  "outside x x_axis =
     (case np_get x_axis 0 of
        Inl e \<Rightarrow> Inl e
      | Inr a0 \<Rightarrow>
          if x < a0 then Inr True
          else (case np_get x_axis (- 1) of Inl e \<Rightarrow> Inl e | Inr al \<Rightarrow> Inr (x > al)))"

definition locate :: "'d Grid \<Rightarrow> real \<Rightarrow> real \<Rightarrow> error + int \<times> int" where
  "locate self T g =
     (case outside T (Teff_axis self) of
        Inl e \<Rightarrow> Inl e
      | Inr True \<Rightarrow> Inl (IndexError (outside_msg ''Teff''))
      | Inr False \<Rightarrow>
     (case outside g (logg_axis self) of
        Inl e \<Rightarrow> Inl e
      | Inr True \<Rightarrow> Inl (IndexError (outside_msg ''logg''))
      | Inr False \<Rightarrow>
     (case locate_x T (Teff_axis self) of
        Inl e \<Rightarrow> Inl e
      | Inr i \<Rightarrow>
     (case locate_x g (logg_axis self) of
        Inl e \<Rightarrow> Inl e
      | Inr j \<Rightarrow>
          if debug self then
            (case debug_report self i j of Inl e \<Rightarrow> Inl e | Inr _ \<Rightarrow> Inr (i, j))
          else Inr (i, j)))))"

subsubsection \<open>find_derivs\<close>

text \<open>
  \<^verbatim>\<open>find_derivs\<close> returns nothing; what it reports is what it prints when \<^verbatim>\<open>show\<close> is
  set. The result of the model is the list of the printed items: an entry of the
  stencil, an entry in parentheses (the branch for \<^verbatim>\<open>j==0 and i==0\<close>), or the end of a row.
\<close>

datatype printed = Entry bool | Centre bool | Row_end

definition derivs_probe ::
    "'d Grid \<Rightarrow> int \<times> int \<Rightarrow> bool \<Rightarrow> stencil \<Rightarrow> int \<Rightarrow> int \<Rightarrow> printed list
      \<Rightarrow> error + printed list" where
  \<comment> \<open>the body of the inner loop, for \<open>j\<close> (outer loop) and \<open>i\<close> (inner loop)\<close>
  "derivs_probe self ij show nbrs j i out =
     (case np_get (Teff_axis self) (fst ij + i) of Inl e \<Rightarrow> Inl e | Inr Teff_i \<Rightarrow>
     (case np_get (logg_axis self) (snd ij + j) of Inl e \<Rightarrow> Inl e | Inr logg_j \<Rightarrow>
        if show then
          (case np_get2 nbrs (i + 1) (j + 1) of
             Inl e \<Rightarrow> Inl e
           | Inr b \<Rightarrow> Inr (out @ [if j = 0 \<and> i = 0 then Centre b else Entry b]))
        else Inr out))"

definition derivs_row ::
    "'d Grid \<Rightarrow> int \<times> int \<Rightarrow> bool \<Rightarrow> stencil \<Rightarrow> int \<Rightarrow> printed list \<Rightarrow> error + printed list" where
  \<comment> \<open>the body of the outer loop\<close>
  "derivs_row self ij show nbrs j out =
     (case for_each [- 1, 1] (derivs_probe self ij show nbrs j) out of
        Inl e \<Rightarrow> Inl e
      | Inr out' \<Rightarrow> Inr (if show then out' @ [Row_end] else out'))"

definition find_derivs :: "'d Grid \<Rightarrow> int \<times> int \<Rightarrow> bool \<Rightarrow> error + printed list" where
  "find_derivs self ij show =
     (case np_get (Teff_axis self) (fst ij) of Inl e \<Rightarrow> Inl e | Inr T \<Rightarrow>
     (case np_get (logg_axis self) (snd ij) of Inl e \<Rightarrow> Inl e | Inr g \<Rightarrow>
     (case np_get2 (nodes self) (fst ij) (snd ij) of Inl e \<Rightarrow> Inl e | Inr node \<Rightarrow>
     (case find_neighbors self ij of Inl e \<Rightarrow> Inl e | Inr nbrs \<Rightarrow>
        for_each [- 1, 1] (derivs_row self ij show nbrs) []))))"

section \<open>Notions used in the statements\<close>

text \<open>
  These are not functions of the source. \<open>shape n m a\<close> says that \<open>a\<close> is an \<open>n \<times> m\<close>
  array; \<open>last_node_at ns T g\<close> is the last node of the list \<open>ns\<close> whose coordinates are
  \<open>(T, g)\<close>; \<open>occupied self p q\<close> says that \<open>(p, q)\<close> is an index pair of the grid whose
  cell holds a node; \<open>stencil_of self ij\<close> is the \<open>3 \<times> 3\<close> table of \<open>occupied\<close> around
  \<open>ij\<close>, indexed by the offsets plus one. \<open>locate_law a x r\<close> is the boundary law of
  the interval index \<open>r\<close> of \<open>x\<close> in the axis \<open>a\<close>: \<open>0\<close> at the first axis value,
  \<open>length a - 2\<close> at the last, and \<open>k\<close> strictly between the values at \<open>k\<close> and \<open>k + 1\<close>.
\<close>

definition shape :: "nat \<Rightarrow> nat \<Rightarrow> 'a list list \<Rightarrow> bool" where
  "shape n m a = (length a = n \<and> list_all (\<lambda>row. length row = m) a)"

primrec last_node_at :: "'d Node list \<Rightarrow> real \<Rightarrow> real \<Rightarrow> 'd Node option" where
  "last_node_at [] T g = None"
| "last_node_at (node # rest) T g =
     (case last_node_at rest T g of
        Some later \<Rightarrow> Some later
      | None \<Rightarrow> if Teff node = T \<and> logg node = g then Some node else None)"

definition occupied :: "('d, 'x) Grid_scheme \<Rightarrow> int \<Rightarrow> int \<Rightarrow> bool" where
  "occupied self p q =
     (0 \<le> p \<and> p < int (n_Teff self) \<and> 0 \<le> q \<and> q < int (n_logg self)
      \<and> isinstance_Node (nodes self ! nat p ! nat q))"

definition stencil_of :: "('d, 'x) Grid_scheme \<Rightarrow> int \<times> int \<Rightarrow> stencil" where
  "stencil_of self ij =
     map (\<lambda>h. map (\<lambda>k. occupied self (fst ij + h) (snd ij + k)) [- 1, 0, 1]) [- 1, 0, 1]"

definition locate_law :: "real list \<Rightarrow> real \<Rightarrow> int \<Rightarrow> bool" where
  "locate_law a x r =
     ((x = a ! 0 \<longrightarrow> r = 0)
      \<and> (x = last a \<longrightarrow> r = int (length a) - 2)
      \<and> (\<forall>k \<in> {0..<length a - 1}. a ! k < x \<and> x < a ! Suc k \<longrightarrow> r = int k))"

section \<open>Example inputs\<close>

text \<open>
  Five files: \<open>a\<close>, \<open>b\<close> and \<open>c\<close> give a \<open>2 \<times> 2\<close> grid with a hole at
  \<open>(10000, 3.5)\<close>; \<open>d\<close> has the coordinates of \<open>a\<close> and another payload; \<open>a\<close>, \<open>c\<close>
  and \<open>e\<close> give a \<open>3 \<times> 3\<close> grid with nodes on the diagonal only.
\<close>

definition demo_files :: "string \<rightharpoonup> nat h5file" where
  "demo_files =
     [''a'' \<mapsto> \<lparr>attrs_Teff = 10000, attrs_logg = 3, dataset = 1\<rparr>,
      ''b'' \<mapsto> \<lparr>attrs_Teff = 20000, attrs_logg = 3, dataset = 2\<rparr>,
      ''c'' \<mapsto> \<lparr>attrs_Teff = 20000, attrs_logg = 35 / 10, dataset = 3\<rparr>,
      ''d'' \<mapsto> \<lparr>attrs_Teff = 10000, attrs_logg = 3, dataset = 4\<rparr>,
      ''e'' \<mapsto> \<lparr>attrs_Teff = 30000, attrs_logg = 4, dataset = 5\<rparr>]"

definition node_a :: "nat Node" where
  "node_a = \<lparr>filename = ''a'', Teff = 10000, logg = 3, data = 1\<rparr>"

definition node_b :: "nat Node" where
  "node_b = \<lparr>filename = ''b'', Teff = 20000, logg = 3, data = 2\<rparr>"

definition node_c :: "nat Node" where
  "node_c = \<lparr>filename = ''c'', Teff = 20000, logg = 35 / 10, data = 3\<rparr>"


definition node_e :: "nat Node" where
  "node_e = \<lparr>filename = ''e'', Teff = 30000, logg = 4, data = 5\<rparr>"

definition demo_g :: "bool \<Rightarrow> nat Grid" where
  \<comment> \<open>the grid that the constructor returns for the files \<open>a\<close>, \<open>b\<close>, \<open>c\<close>\<close>
  "demo_g dbg =
     \<lparr>Teff_axis = [10000, 20000], logg_axis = [3, 35 / 10], n_Teff = 2, n_logg = 2,
      nodes = [[Some node_a, None], [Some node_b, Some node_c]],
      neighbors =
        [[Some [[False, False, False], [False, True, False], [False, True, True]],
          Some [[False, False, False], [True, False, False], [True, True, False]]],
         [Some [[False, True, False], [False, True, True], [False, False, False]],
          Some [[True, False, False], [True, True, False], [False, False, False]]]],
      debug = dbg\<rparr>"

definition single_g :: "bool \<Rightarrow> nat Grid" where
  \<comment> \<open>the grid that the constructor returns for the file \<open>a\<close> alone\<close>
  "single_g dbg =
     \<lparr>Teff_axis = [10000], logg_axis = [3], n_Teff = 1, n_logg = 1,
      nodes = [[Some node_a]],
      neighbors = [[Some [[False, False, False], [False, True, False], [False, False, False]]]],
      debug = dbg\<rparr>"

section \<open>Arrays and loops\<close>

text \<open>
  Facts about the array operations: \<open>np_unique\<close> gives the strictly increasing list of
  the values; an index that is a position of the array reads and writes that position;
  and the loop that places the nodes leaves in each cell the last node with the
  coordinates of the cell.
\<close>

lemma remdups_adj_strict: "sorted xs \<Longrightarrow> sorted_wrt (<) (remdups_adj (xs::real list))"
  by (induction xs rule: remdups_adj.induct) (auto simp: less_le)

lemma np_unique_strict: "sorted_wrt (<) (np_unique xs)"
  unfolding np_unique_def by (simp add: remdups_adj_strict)

lemma np_unique_set: "set (np_unique xs) = set xs"
  by (simp add: np_unique_def)

lemma np_unique_sorted_list: "np_unique xs = sorted_list_of_set (set xs)"
proof -
  have "sorted_wrt (<) (np_unique xs)" by (rule np_unique_strict)
  then show ?thesis
    using np_unique_set sorted_list_of_set.idem_if_sorted_distinct
    by (metis strict_sorted_iff)
qed

lemma np_index_nat: "p < n \<Longrightarrow> np_index n (int p) = Inr p"
  by (simp add: np_index_def)

lemma np_get_nat: "p < length a \<Longrightarrow> np_get a (int p) = Inr (a ! p)"
  by (simp add: np_get_def np_index_nat)

lemma np_where_first_mem:
  assumes "v \<in> set a"
  shows "\<exists>p. np_where_first v a = Inr (int p) \<and> p < length a \<and> a ! p = v"
proof -
  from assms obtain q where q: "q < length a" "a ! q = v" by (auto simp: in_set_conv_nth)
  then have "q \<in> set (np_where v a)" by (auto simp: np_where_def)
  then obtain p ps where ps: "np_where v a = p # ps" by (cases "np_where v a") auto
  then have "p \<in> set (np_where v a)" by simp
  then have "p < length a \<and> a ! p = v" by (auto simp: np_where_def)
  with ps show ?thesis by (auto simp: np_where_first_def)
qed

lemma shape_full: "shape n m (np_full2 n m v)"
  by (simp add: shape_def np_full2_def list_all_iff)

lemma shape_row: "shape n m a \<Longrightarrow> p < n \<Longrightarrow> length (a ! p) = m"
  by (auto simp: shape_def list_all_length)

lemma shape_update: "shape n m a \<Longrightarrow> shape n m (a[p := (a ! p)[q := v]])"
proof (cases "p < length a")
  case True
  assume "shape n m a"
  with True show ?thesis
    by (auto simp: shape_def list_all_length nth_list_update)
next
  case False
  assume "shape n m a"
  with False show ?thesis by (simp add: list_update_beyond)
qed

lemma nth_update2:
  "shape n m a \<Longrightarrow> p < n \<Longrightarrow> q < m \<Longrightarrow> i < n \<Longrightarrow> j < m \<Longrightarrow>
   a[p := (a ! p)[q := v]] ! i ! j = (if i = p \<and> j = q then v else a ! i ! j)"
  by (auto simp: shape_def list_all_length nth_list_update)

lemma np_get2_nat:
  "shape n m a \<Longrightarrow> p < n \<Longrightarrow> q < m \<Longrightarrow> np_get2 a (int p) (int q) = Inr (a ! p ! q)"
proof -
  assume a: "shape n m a" "p < n" "q < m"
  then have "length a = n" "length (a ! p) = m" by (simp_all add: shape_def shape_row)
  with a show ?thesis by (simp add: np_get2_def np_get_nat)
qed

lemma np_set2_nat:
  "shape n m a \<Longrightarrow> p < n \<Longrightarrow> q < m \<Longrightarrow>
   np_set2 a (int p) (int q) v = Inr (a[p := (a ! p)[q := v]])"
proof -
  assume a: "shape n m a" "p < n" "q < m"
  then have "length a = n" "length (a ! p) = m" by (simp_all add: shape_def shape_row)
  with a show ?thesis by (simp add: np_set2_def np_index_nat)
qed

lemma nth_eq_distinct: "distinct xs \<Longrightarrow> i < length xs \<Longrightarrow> p < length xs \<Longrightarrow> xs ! i = xs ! p \<longleftrightarrow> i = p"
  by (auto simp: nth_eq_iff_index_eq)

lemma place_node_result:
  assumes mem: "Teff node \<in> set (Teff_axis self)" "logg node \<in> set (logg_axis self)"
    and sh: "shape (length (Teff_axis self)) (length (logg_axis self)) (nodes self)"
    and dist: "distinct (Teff_axis self)" "distinct (logg_axis self)"
  shows "\<exists>a. place_node node self = Inr (self\<lparr>nodes := a\<rparr>)
           \<and> shape (length (Teff_axis self)) (length (logg_axis self)) a
           \<and> (\<forall>i < length (Teff_axis self). \<forall>j < length (logg_axis self).
                a ! i ! j = (if Teff node = Teff_axis self ! i \<and> logg node = logg_axis self ! j
                             then Some node else nodes self ! i ! j))"
proof -
  from np_where_first_mem [OF mem(1)] obtain p where
    p: "np_where_first (Teff node) (Teff_axis self) = Inr (int p)"
       "p < length (Teff_axis self)" "Teff_axis self ! p = Teff node" by blast
  from np_where_first_mem [OF mem(2)] obtain q where
    q: "np_where_first (logg node) (logg_axis self) = Inr (int q)"
       "q < length (logg_axis self)" "logg_axis self ! q = logg node" by blast
  let ?a = "(nodes self)[p := (nodes self ! p)[q := Some node]]"
  have set: "np_set2 (nodes self) (int p) (int q) (Some node) = Inr ?a"
    using sh p(2) q(2) by (rule np_set2_nat)
  have 1: "place_node node self = Inr (self\<lparr>nodes := ?a\<rparr>)"
    by (simp add: place_node_def p(1) q(1) set)
  have 2: "shape (length (Teff_axis self)) (length (logg_axis self)) ?a"
    using sh by (rule shape_update)
  have 3: "?a ! i ! j = (if Teff node = Teff_axis self ! i \<and> logg node = logg_axis self ! j
                             then Some node else nodes self ! i ! j)"
    if "i < length (Teff_axis self)" "j < length (logg_axis self)" for i j
  proof -
    have "Teff node = Teff_axis self ! i \<longleftrightarrow> i = p"
      using nth_eq_distinct [OF dist(1) that(1) p(2)] p(3) by auto
    moreover have "logg node = logg_axis self ! j \<longleftrightarrow> j = q"
      using nth_eq_distinct [OF dist(2) that(2) q(2)] q(3) by auto
    ultimately show ?thesis
      using nth_update2 [OF sh p(2) q(2) that] by simp
  qed
  from 1 2 3 show ?thesis by blast
qed

lemma place_nodes_result:
  assumes "\<forall>node \<in> set ns. Teff node \<in> set (Teff_axis self) \<and> logg node \<in> set (logg_axis self)"
    and "shape (length (Teff_axis self)) (length (logg_axis self)) (nodes self)"
    and "distinct (Teff_axis self)" "distinct (logg_axis self)"
  shows "\<exists>a. for_each ns place_node self = Inr (self\<lparr>nodes := a\<rparr>)
           \<and> shape (length (Teff_axis self)) (length (logg_axis self)) a
           \<and> (\<forall>i < length (Teff_axis self). \<forall>j < length (logg_axis self).
                a ! i ! j = (case last_node_at ns (Teff_axis self ! i) (logg_axis self ! j) of
                               Some node \<Rightarrow> Some node | None \<Rightarrow> nodes self ! i ! j))"
  using assms
proof (induction ns arbitrary: self)
  case Nil
  then show ?case by (intro exI [of _ "nodes self"]) simp
next
  case (Cons node ns)
  from Cons.prems have mem: "Teff node \<in> set (Teff_axis self)" "logg node \<in> set (logg_axis self)"
    by auto
  from place_node_result [OF mem Cons.prems(2-4)] obtain a where
    a: "place_node node self = Inr (self\<lparr>nodes := a\<rparr>)"
       "shape (length (Teff_axis self)) (length (logg_axis self)) a"
       "\<And>i j. i < length (Teff_axis self) \<Longrightarrow> j < length (logg_axis self) \<Longrightarrow>
                a ! i ! j = (if Teff node = Teff_axis self ! i \<and> logg node = logg_axis self ! j
                             then Some node else nodes self ! i ! j)" by blast
  let ?s = "self\<lparr>nodes := a\<rparr>"
  have "\<exists>b. for_each ns place_node ?s = Inr (?s\<lparr>nodes := b\<rparr>)
           \<and> shape (length (Teff_axis ?s)) (length (logg_axis ?s)) b
           \<and> (\<forall>i < length (Teff_axis ?s). \<forall>j < length (logg_axis ?s).
                b ! i ! j = (case last_node_at ns (Teff_axis ?s ! i) (logg_axis ?s ! j) of
                               Some node \<Rightarrow> Some node | None \<Rightarrow> nodes ?s ! i ! j))"
    by (rule Cons.IH) (use Cons.prems a(2) in auto)
  then have "\<exists>b. for_each ns place_node ?s = Inr (self\<lparr>nodes := b\<rparr>)
           \<and> shape (length (Teff_axis self)) (length (logg_axis self)) b
           \<and> (\<forall>i < length (Teff_axis self). \<forall>j < length (logg_axis self).
                b ! i ! j = (case last_node_at ns (Teff_axis self ! i) (logg_axis self ! j) of
                               Some node \<Rightarrow> Some node | None \<Rightarrow> a ! i ! j))"
    by (simp cong: option.case_cong)
  then obtain b where
    b: "for_each ns place_node ?s = Inr (self\<lparr>nodes := b\<rparr>)"
       "shape (length (Teff_axis self)) (length (logg_axis self)) b"
       "\<And>i j. i < length (Teff_axis self) \<Longrightarrow> j < length (logg_axis self) \<Longrightarrow>
                b ! i ! j = (case last_node_at ns (Teff_axis self ! i) (logg_axis self ! j) of
                               Some node \<Rightarrow> Some node | None \<Rightarrow> a ! i ! j)" by blast
  have "for_each (node # ns) place_node self = Inr (self\<lparr>nodes := b\<rparr>)"
    by (simp add: a(1) b(1))
  moreover have "b ! i ! j = (case last_node_at (node # ns) (Teff_axis self ! i) (logg_axis self ! j) of
                               Some node \<Rightarrow> Some node | None \<Rightarrow> nodes self ! i ! j)"
    if "i < length (Teff_axis self)" "j < length (logg_axis self)" for i j
    using b(3) [OF that] a(3) [OF that] by (auto split: option.splits)
  ultimately show ?case using b(2) by blast
qed

section \<open>Neighbour stencils\<close>

text \<open>
  On an array of nodes of the shape of the grid, \<open>find_neighbors\<close> returns
  \<open>stencil_of\<close> and never raises; the two loops of the constructor store it at every
  cell.
\<close>

lemma py_range_offsets: "py_range (- 1) 2 = [- 1, 0, 1]"
  by (simp add: py_range_def upto_rec1)

lemma py_range_nat: "py_range 0 (int n) = map int [0..<n]"
proof (induction n)
  case 0
  show ?case by (simp add: py_range_def)
next
  case (Suc n)
  have "[0..int (Suc n) - 1] = [0..int n - 1] @ [int n]"
    using upto_rec2 [of 0 "int n"] by simp
  with Suc show ?case by (simp add: py_range_def)
qed

lemma neighbor_probe_eq:
  assumes sh: "shape (n_Teff self) (n_logg self) (nodes self)"
    and st: "shape 3 3 st"
    and h: "h \<in> {- 1, 0, 1}" and k: "k \<in> {- 1, 0, 1}"
  shows "neighbor_probe self ij k h st =
           Inr (st[nat (h + 1) := (st ! nat (h + 1))[nat (k + 1) :=
                  (st ! nat (h + 1) ! nat (k + 1) \<or> occupied self (fst ij + h) (snd ij + k))]])"
proof -
  let ?p = "fst ij + h" and ?q = "snd ij + k"
  have hk: "nat (h + 1) < 3" "nat (k + 1) < 3" "int (nat (h + 1)) = h + 1" "int (nat (k + 1)) = k + 1"
    using h k by auto
  have same: "st[nat (h + 1) := (st ! nat (h + 1))[nat (k + 1) := st ! nat (h + 1) ! nat (k + 1)]] = st"
    by simp
  show ?thesis
  proof (cases "(0 \<le> ?p \<and> ?p < int (n_Teff self)) \<and> (0 \<le> ?q \<and> ?q < int (n_logg self))")
    case False
    then have "\<not> occupied self ?p ?q" by (auto simp: occupied_def)
    moreover have "neighbor_probe self ij k h st = Inr st"
      unfolding neighbor_probe_def Let_def by (simp only: if_not_P [OF False])
    ultimately show ?thesis using same by simp
  next
    case True
    then have "nat ?p < n_Teff self" "nat ?q < n_logg self" by auto
    from np_get2_nat [OF sh this] True
    have get: "np_get2 (nodes self) ?p ?q = Inr (nodes self ! nat ?p ! nat ?q)" by simp
    have occ: "occupied self ?p ?q = isinstance_Node (nodes self ! nat ?p ! nat ?q)"
      using True by (simp add: occupied_def)
    from np_set2_nat [OF st hk(1,2), of True] hk(3,4)
    have set: "np_set2 st (h + 1) (k + 1) True =
                 Inr (st[nat (h + 1) := (st ! nat (h + 1))[nat (k + 1) := True]])" by simp
    show ?thesis
      using True same by (simp add: neighbor_probe_def Let_def get occ set)
  qed
qed

lemma find_neighbors_eq:
  assumes sh: "shape (n_Teff self) (n_logg self) (nodes self)"
  shows "find_neighbors self ij = Inr (stencil_of self ij)"
proof -
  have st0: "shape 3 3 (np_full2 3 3 False)" by (rule shape_full)
  note probe = neighbor_probe_eq [OF sh]
  show ?thesis
    unfolding find_neighbors_def py_range_offsets
    by (simp add: probe shape_def np_full2_def stencil_of_def numeral_3_eq_3 numeral_2_eq_2)
qed

lemma stencil_of_neighbors_update [simp]:
  "stencil_of (self\<lparr>neighbors := a\<rparr>) ij = stencil_of self ij"
  by (simp add: stencil_of_def occupied_def)

lemma stencil_of_debug_update [simp]:
  "stencil_of (self\<lparr>debug := b\<rparr>) ij = stencil_of self ij"
  by (simp add: stencil_of_def occupied_def)

lemma store_neighbors_eq:
  assumes "shape (n_Teff self) (n_logg self) (nodes self)"
    and "shape (n_Teff self) (n_logg self) (neighbors self)"
    and "p < n_Teff self" "q < n_logg self"
  shows "store_neighbors (int q) (int p) self =
           Inr (self\<lparr>neighbors := (neighbors self)[p := (neighbors self ! p)[q :=
                  Some (stencil_of self (int p, int q))]]\<rparr>)"
  by (simp add: store_neighbors_def find_neighbors_eq [OF assms(1)] np_set2_nat [OF assms(2-4)])

lemma store_column:
  assumes "shape (n_Teff self) (n_logg self) (nodes self)"
    and "shape (n_Teff self) (n_logg self) (neighbors self)"
    and "\<forall>p \<in> set ps. p < n_Teff self" and "q < n_logg self"
  shows "\<exists>b. for_each (map int ps) (store_neighbors (int q)) self = Inr (self\<lparr>neighbors := b\<rparr>)
           \<and> shape (n_Teff self) (n_logg self) b
           \<and> (\<forall>i < n_Teff self. \<forall>j < n_logg self.
                b ! i ! j = (if i \<in> set ps \<and> j = q then Some (stencil_of self (int i, int j))
                             else neighbors self ! i ! j))"
  using assms
proof (induction ps arbitrary: self)
  case Nil
  then show ?case by (intro exI [of _ "neighbors self"]) simp
next
  case (Cons p ps)
  let ?a = "(neighbors self)[p := (neighbors self ! p)[q := Some (stencil_of self (int p, int q))]]"
  let ?s = "self\<lparr>neighbors := ?a\<rparr>"
  from Cons.prems have p: "p < n_Teff self" by simp
  have step: "store_neighbors (int q) (int p) self = Inr ?s"
    using Cons.prems(1,2) p Cons.prems(4) by (rule store_neighbors_eq)
  have sha: "shape (n_Teff self) (n_logg self) ?a"
    using Cons.prems(2) by (rule shape_update)
  have "\<exists>b. for_each (map int ps) (store_neighbors (int q)) ?s = Inr (?s\<lparr>neighbors := b\<rparr>)
           \<and> shape (n_Teff ?s) (n_logg ?s) b
           \<and> (\<forall>i < n_Teff ?s. \<forall>j < n_logg ?s.
                b ! i ! j = (if i \<in> set ps \<and> j = q then Some (stencil_of ?s (int i, int j))
                             else neighbors ?s ! i ! j))"
    by (rule Cons.IH) (use Cons.prems sha in auto)
  then obtain b where
    b: "for_each (map int ps) (store_neighbors (int q)) ?s = Inr (self\<lparr>neighbors := b\<rparr>)"
       "shape (n_Teff self) (n_logg self) b"
       "\<And>i j. i < n_Teff self \<Longrightarrow> j < n_logg self \<Longrightarrow>
          b ! i ! j = (if i \<in> set ps \<and> j = q then Some (stencil_of self (int i, int j))
                       else ?a ! i ! j)"
    by auto
  have "for_each (map int (p # ps)) (store_neighbors (int q)) self = Inr (self\<lparr>neighbors := b\<rparr>)"
    by (simp add: step b(1))
  moreover have "b ! i ! j = (if i \<in> set (p # ps) \<and> j = q then Some (stencil_of self (int i, int j))
                       else neighbors self ! i ! j)"
    if "i < n_Teff self" "j < n_logg self" for i j
    using b(3) [OF that] nth_update2 [OF Cons.prems(2) p Cons.prems(4) that] by auto
  ultimately show ?case using b(2) by blast
qed

lemma store_all:
  assumes "shape (n_Teff self) (n_logg self) (nodes self)"
    and "shape (n_Teff self) (n_logg self) (neighbors self)"
    and "\<forall>q \<in> set qs. q < n_logg self" and "n_Teff self = nT"
  shows "\<exists>b. for_each (map int qs)
                (\<lambda>i_logg. for_each (py_range 0 (int nT)) (store_neighbors i_logg)) self
              = Inr (self\<lparr>neighbors := b\<rparr>)
           \<and> shape (n_Teff self) (n_logg self) b
           \<and> (\<forall>i < n_Teff self. \<forall>j < n_logg self.
                b ! i ! j = (if j \<in> set qs then Some (stencil_of self (int i, int j))
                             else neighbors self ! i ! j))"
  using assms
proof (induction qs arbitrary: self)
  case Nil
  then show ?case by (intro exI [of _ "neighbors self"]) simp
next
  case (Cons q qs)
  from Cons.prems have q: "q < n_logg self" by simp
  have "\<forall>p \<in> set [0..<nT]. p < n_Teff self" using Cons.prems(4) by simp
  from store_column [OF Cons.prems(1,2) this q] obtain a where
    a: "for_each (py_range 0 (int nT)) (store_neighbors (int q)) self = Inr (self\<lparr>neighbors := a\<rparr>)"
       "shape (n_Teff self) (n_logg self) a"
       "\<And>i j. i < n_Teff self \<Longrightarrow> j < n_logg self \<Longrightarrow>
          a ! i ! j = (if j = q then Some (stencil_of self (int i, int j))
                       else neighbors self ! i ! j)"
    using Cons.prems(4) by (auto simp: py_range_nat)
  let ?s = "self\<lparr>neighbors := a\<rparr>"
  have "\<exists>b. for_each (map int qs)
                (\<lambda>i_logg. for_each (py_range 0 (int nT)) (store_neighbors i_logg)) ?s
              = Inr (?s\<lparr>neighbors := b\<rparr>)
           \<and> shape (n_Teff ?s) (n_logg ?s) b
           \<and> (\<forall>i < n_Teff ?s. \<forall>j < n_logg ?s.
                b ! i ! j = (if j \<in> set qs then Some (stencil_of ?s (int i, int j))
                             else neighbors ?s ! i ! j))"
    by (rule Cons.IH) (use Cons.prems a(2) in auto)
  then obtain b where
    b: "for_each (map int qs)
          (\<lambda>i_logg. for_each (py_range 0 (int nT)) (store_neighbors i_logg)) ?s
        = Inr (self\<lparr>neighbors := b\<rparr>)"
       "shape (n_Teff self) (n_logg self) b"
       "\<And>i j. i < n_Teff self \<Longrightarrow> j < n_logg self \<Longrightarrow>
          b ! i ! j = (if j \<in> set qs then Some (stencil_of self (int i, int j)) else a ! i ! j)"
    by auto
  have "for_each (map int (q # qs))
          (\<lambda>i_logg. for_each (py_range 0 (int nT)) (store_neighbors i_logg)) self
        = Inr (self\<lparr>neighbors := b\<rparr>)"
    by (simp add: a(1) b(1))
  moreover have "b ! i ! j = (if j \<in> set (q # qs) then Some (stencil_of self (int i, int j))
                       else neighbors self ! i ! j)"
    if "i < n_Teff self" "j < n_logg self" for i j
    using b(3) [OF that] a(3) [OF that] by auto
  ultimately show ?case using b(2) by blast
qed

section \<open>Construction\<close>

lemma read_nodes_length: "read_nodes files names = Inr ns \<Longrightarrow> length ns = length names"
  by (induction names arbitrary: ns) (auto split: sum.splits)

lemma np_unique_distinct: "distinct (np_unique xs)"
  using np_unique_strict [of xs] by (simp add: strict_sorted_iff)

lemma Grid_init_built:
  assumes ne: "filenames \<noteq> []" and rd: "read_nodes files filenames = Inr ns"
  shows "\<exists>a b. Grid_init files filenames dbg =
             Inr \<lparr>Teff_axis = np_unique (map Teff ns), logg_axis = np_unique (map logg ns),
                  n_Teff = length (np_unique (map Teff ns)),
                  n_logg = length (np_unique (map logg ns)),
                  nodes = a, neighbors = b, debug = dbg\<rparr>
           \<and> shape (length (np_unique (map Teff ns))) (length (np_unique (map logg ns))) a
           \<and> shape (length (np_unique (map Teff ns))) (length (np_unique (map logg ns))) b
           \<and> (\<forall>i < length (np_unique (map Teff ns)). \<forall>j < length (np_unique (map logg ns)).
                a ! i ! j = last_node_at ns (np_unique (map Teff ns) ! i) (np_unique (map logg ns) ! j))
           \<and> (\<forall>i < length (np_unique (map Teff ns)). \<forall>j < length (np_unique (map logg ns)).
                b ! i ! j =
                  Some (stencil_of
                    \<lparr>Teff_axis = np_unique (map Teff ns), logg_axis = np_unique (map logg ns),
                     n_Teff = length (np_unique (map Teff ns)),
                     n_logg = length (np_unique (map logg ns)),
                     nodes = a, neighbors = b, debug = dbg\<rparr> (int i, int j)))"
proof -
  define Ta where "Ta = np_unique (map Teff ns)"
  define La where "La = np_unique (map logg ns)"
  define s0 :: "'a Grid" where
    "s0 = \<lparr>Teff_axis = Ta, logg_axis = La, n_Teff = length Ta, n_logg = length La,
           nodes = np_full2 (length Ta) (length La) None, neighbors = [], debug = False\<rparr>"
  have "\<forall>node \<in> set ns. Teff node \<in> set (Teff_axis s0) \<and> logg node \<in> set (logg_axis s0)"
    by (simp add: s0_def Ta_def La_def np_unique_set)
  moreover have "shape (length (Teff_axis s0)) (length (logg_axis s0)) (nodes s0)"
    by (simp add: s0_def shape_full)
  moreover have "distinct (Teff_axis s0)" "distinct (logg_axis s0)"
    by (simp_all add: s0_def Ta_def La_def np_unique_distinct)
  ultimately obtain a where
    a: "for_each ns place_node s0 = Inr (s0\<lparr>nodes := a\<rparr>)"
       "shape (length Ta) (length La) a"
       "\<And>i j. i < length Ta \<Longrightarrow> j < length La \<Longrightarrow>
          a ! i ! j = (case last_node_at ns (Ta ! i) (La ! j) of
                         Some node \<Rightarrow> Some node | None \<Rightarrow> None)"
    using place_nodes_result [of ns s0]
    by (auto simp: s0_def np_full2_def cong: option.case_cong)
  have a3: "a ! i ! j = last_node_at ns (Ta ! i) (La ! j)"
    if "i < length Ta" "j < length La" for i j
    using a(3) [OF that] by (simp split: option.splits)
  define s1 where "s1 = s0\<lparr>nodes := a, neighbors := np_full2 (length Ta) (length La) None\<rparr>"
  have "shape (n_Teff s1) (n_logg s1) (nodes s1)"
    by (simp add: s1_def s0_def a(2))
  moreover have "shape (n_Teff s1) (n_logg s1) (neighbors s1)"
    by (simp add: s1_def s0_def shape_full)
  moreover have "\<forall>q \<in> set [0..<length La]. q < n_logg s1"
    by (simp add: s1_def s0_def)
  moreover have "n_Teff s1 = length Ta" by (simp add: s1_def s0_def)
  ultimately obtain b where
    b: "for_each (py_range 0 (int (length La)))
          (\<lambda>i_logg. for_each (py_range 0 (int (length Ta))) (store_neighbors i_logg)) s1
        = Inr (s1\<lparr>neighbors := b\<rparr>)"
       "shape (length Ta) (length La) b"
       "\<And>i j. i < length Ta \<Longrightarrow> j < length La \<Longrightarrow>
          b ! i ! j = Some (stencil_of s1 (int i, int j))"
    using store_all [of s1 "[0..<length La]" "length Ta"]
    by (auto simp: py_range_nat s1_def s0_def)
  let ?g = "\<lparr>Teff_axis = Ta, logg_axis = La, n_Teff = length Ta, n_logg = length La,
            nodes = a, neighbors = b, debug = dbg\<rparr>"
  have g: "Grid_init files filenames dbg = Inr ?g"
    using ne rd a(1) b(1)
    by (simp add: Grid_init_def Let_def Ta_def [symmetric] La_def [symmetric]
          s0_def [symmetric])
       (simp add: s1_def s0_def)
  have st: "stencil_of s1 ij = stencil_of ?g ij" for ij
    by (simp add: stencil_of_def occupied_def s1_def s0_def)
  show ?thesis
    unfolding Ta_def [symmetric] La_def [symmetric]
    using g a(2) b(2) a3 b(3) st by auto
qed

section \<open>Cells and lookup\<close>

lemma Grid_init_Inr:
  assumes "Grid_init files filenames dbg = Inr g"
  obtains ns where "filenames \<noteq> []" "read_nodes files filenames = Inr ns"
    "Teff_axis g = np_unique (map Teff ns)" "logg_axis g = np_unique (map logg ns)"
    "n_Teff g = length (Teff_axis g)" "n_logg g = length (logg_axis g)"
    "shape (n_Teff g) (n_logg g) (nodes g)" "shape (n_Teff g) (n_logg g) (neighbors g)"
    "debug g = dbg"
    "\<And>i j. i < n_Teff g \<Longrightarrow> j < n_logg g \<Longrightarrow>
       nodes g ! i ! j = last_node_at ns (Teff_axis g ! i) (logg_axis g ! j)"
    "\<And>i j. i < n_Teff g \<Longrightarrow> j < n_logg g \<Longrightarrow>
       neighbors g ! i ! j = Some (stencil_of g (int i, int j))"
proof -
  from assms have ne: "filenames \<noteq> []"
    by (auto simp: Grid_init_def)
  from assms ne obtain ns where rd: "read_nodes files filenames = Inr ns"
    by (cases "read_nodes files filenames") (auto simp: Grid_init_def)
  from Grid_init_built [OF ne rd, of dbg] assms
  show ?thesis
    by (intro that [of ns] ne rd) auto
qed

lemma last_node_at_None: "last_node_at ns T g = None \<longleftrightarrow> (\<forall>n \<in> set ns. Teff n \<noteq> T \<or> logg n \<noteq> g)"
  by (induction ns) (auto split: option.splits)

lemma last_node_at_Some:
  "last_node_at ns T g = Some n \<Longrightarrow> n \<in> set ns \<and> Teff n = T \<and> logg n = g"
  by (induction ns) (auto split: option.splits if_splits)

lemma last_node_at_distinct:
  "distinct (map (\<lambda>n. (Teff n, logg n)) ns) \<Longrightarrow> node \<in> set ns \<Longrightarrow>
   last_node_at ns (Teff node) (logg node) = Some node"
proof (induction ns)
  case Nil
  then show ?case by simp
next
  case (Cons n ns)
  show ?case
  proof (cases "node \<in> set ns")
    case True
    with Cons show ?thesis by simp
  next
    case False
    with Cons.prems have eq: "node = n" by simp
    from Cons.prems have notin: "(Teff n, logg n) \<notin> set (map (\<lambda>n. (Teff n, logg n)) ns)" by simp
    have "\<forall>m \<in> set ns. Teff m \<noteq> Teff n \<or> logg m \<noteq> logg n"
    proof
      fix m assume "m \<in> set ns"
      then have "(Teff m, logg m) \<in> set (map (\<lambda>n. (Teff n, logg n)) ns)"
        by (simp add: image_iff) blast
      with notin show "Teff m \<noteq> Teff n \<or> logg m \<noteq> logg n" by auto
    qed
    then have "last_node_at ns (Teff n) (logg n) = None" by (simp add: last_node_at_None)
    with eq show ?thesis by simp
  qed
qed

lemma isinstance_Node_id: "(if isinstance_Node c then Inr c else Inr None) = Inr c"
  by (cases c) (simp_all add: isinstance_Node_def)

lemma lookup_cell:
  assumes "shape (length (Teff_axis g)) (length (logg_axis g)) (nodes g)"
    and "distinct (Teff_axis g)" "distinct (logg_axis g)"
    and "i < length (Teff_axis g)" "j < length (logg_axis g)"
  shows "lookup g (Teff_axis g ! i) (logg_axis g ! j) = Inr (nodes g ! i ! j)"
proof -
  let ?T = "Teff_axis g ! i" and ?L = "logg_axis g ! j"
  have mem: "?T \<in> set (Teff_axis g)" "?L \<in> set (logg_axis g)" using assms(4,5) by simp_all
  from np_where_first_mem [OF mem(1)] obtain p where
    p: "np_where_first ?T (Teff_axis g) = Inr (int p)" "p < length (Teff_axis g)"
       "Teff_axis g ! p = ?T" by blast
  from np_where_first_mem [OF mem(2)] obtain q where
    q: "np_where_first ?L (logg_axis g) = Inr (int q)" "q < length (logg_axis g)"
       "logg_axis g ! q = ?L" by blast
  have "p = i" using nth_eq_distinct [OF assms(2) p(2) assms(4)] p(3) by simp
  moreover have "q = j" using nth_eq_distinct [OF assms(3) q(2) assms(5)] q(3) by simp
  ultimately show ?thesis
    using mem p(1) q(1) np_get2_nat [OF assms(1,4,5)]
    by (simp add: lookup_def isinstance_Node_id)
qed

lemma lookup_absent:
  "T \<notin> set (Teff_axis g) \<or> L \<notin> set (logg_axis g) \<Longrightarrow> lookup g T L = Inr None"
  by (auto simp: lookup_def)

lemma lookup_last_node_at:
  assumes "Grid_init files filenames dbg = Inr g" "read_nodes files filenames = Inr ns"
  shows "lookup g T L = Inr (last_node_at ns T L)"
proof -
  from assms(1) obtain ns' where g:
    "read_nodes files filenames = Inr ns'"
    "Teff_axis g = np_unique (map Teff ns')" "logg_axis g = np_unique (map logg ns')"
    "n_Teff g = length (Teff_axis g)" "n_logg g = length (logg_axis g)"
    "shape (n_Teff g) (n_logg g) (nodes g)"
    "\<And>i j. i < n_Teff g \<Longrightarrow> j < n_logg g \<Longrightarrow>
       nodes g ! i ! j = last_node_at ns' (Teff_axis g ! i) (logg_axis g ! j)"
    by (rule Grid_init_Inr) blast
  with assms(2) have [simp]: "ns' = ns" by simp
  show ?thesis
  proof (cases "T \<in> set (Teff_axis g) \<and> L \<in> set (logg_axis g)")
    case False
    then have "\<forall>n \<in> set ns. Teff n \<noteq> T \<or> logg n \<noteq> L"
      using g(2,3) by (auto simp: np_unique_set)
    then have "last_node_at ns T L = None" by (simp add: last_node_at_None)
    with False show ?thesis by (simp add: lookup_absent)
  next
    case True
    then obtain i j where ij: "i < length (Teff_axis g)" "Teff_axis g ! i = T"
      "j < length (logg_axis g)" "logg_axis g ! j = L"
      by (auto simp: in_set_conv_nth)
    have "lookup g (Teff_axis g ! i) (logg_axis g ! j) = Inr (nodes g ! i ! j)"
      using g(4,5,6) ij(1,3) by (intro lookup_cell) (simp_all add: g(2,3) np_unique_distinct)
    with ij g(7) [of i j] g(4,5) show ?thesis by simp
  qed
qed

section \<open>Stencils of a constructed grid\<close>

lemma shape_stencil_of: "shape 3 3 (stencil_of self ij)"
  by (simp add: stencil_of_def shape_def)

lemma stencil_of_entry:
  assumes "dh \<in> {- 1, 0, 1}" "dk \<in> {- 1, 0, 1}"
  shows "np_get2 (stencil_of self ij) (dh + 1) (dk + 1)
           = Inr (occupied self (fst ij + dh) (snd ij + dk))"
  using assms
  by (elim insertE emptyE; simp add: stencil_of_def np_get2_def np_get_def np_index_def)

lemma stencil_of_outside:
  assumes "\<forall>dh \<in> {- 1, 0, 1}. \<forall>dk \<in> {- 1, 0, 1}. \<not> occupied self (fst ij + dh) (snd ij + dk)"
  shows "stencil_of self ij = np_full2 3 3 False"
  using assms by (simp add: stencil_of_def np_full2_def numeral_3_eq_3)

lemma Grid_init_find_neighbors:
  assumes "Grid_init files filenames dbg = Inr g"
  shows "find_neighbors g ij = Inr (stencil_of g ij)"
proof (rule Grid_init_Inr [OF assms])
  assume "shape (n_Teff g) (n_logg g) (nodes g)"
  then show ?thesis by (rule find_neighbors_eq)
qed

section \<open>The example inputs, evaluated\<close>

lemma demo_read: "read_nodes demo_files [''a'', ''b'', ''c''] = Inr [node_a, node_b, node_c]"
  by (simp add: demo_files_def Node_init_def node_a_def node_b_def node_c_def)


lemma diag_read: "read_nodes demo_files [''a'', ''c'', ''e''] = Inr [node_a, node_c, node_e]"
  by (simp add: demo_files_def Node_init_def node_a_def node_c_def node_e_def)

lemma single_read: "read_nodes demo_files [''a''] = Inr [node_a]"
  by (simp add: demo_files_def Node_init_def node_a_def)

lemma single_grid:
  "Grid_init demo_files [''a''] dbg =
     Inr \<lparr>Teff_axis = [10000], logg_axis = [3], n_Teff = 1, n_logg = 1,
          nodes = [[Some node_a]],
          neighbors = [[Some [[False, False, False], [False, True, False], [False, False, False]]]],
          debug = dbg\<rparr>"
  apply (simp only: Grid_init_def single_read)
  by (simp add: Let_def np_unique_def node_a_def np_full2_def
      place_node_def np_where_first_def np_where_def np_set2_def np_index_def
      py_range_def upto_rec1 store_neighbors_def find_neighbors_def neighbor_probe_def
      np_get2_def np_get_def isinstance_Node_def numeral_3_eq_3)


lemma demo_grid:
  "Grid_init demo_files [''a'', ''b'', ''c''] dbg =
     Inr \<lparr>Teff_axis = [10000, 20000], logg_axis = [3, 35 / 10], n_Teff = 2, n_logg = 2,
          nodes = [[Some node_a, None], [Some node_b, Some node_c]],
          neighbors =
            [[Some [[False, False, False], [False, True, False], [False, True, True]],
              Some [[False, False, False], [True, False, False], [True, True, False]]],
             [Some [[False, True, False], [False, True, True], [False, False, False]],
              Some [[True, False, False], [True, True, False], [False, False, False]]]],
          debug = dbg\<rparr>"
  apply (simp only: Grid_init_def demo_read)
  by (simp add: Let_def np_unique_def node_a_def node_b_def node_c_def np_full2_def
      place_node_def np_where_first_def np_where_def np_set2_def np_index_def
      py_range_def upto_rec1 store_neighbors_def find_neighbors_def neighbor_probe_def
      np_get2_def np_get_def isinstance_Node_def numeral_3_eq_3 numeral_2_eq_2)

lemma demo_g_built: "Grid_init demo_files [''a'', ''b'', ''c''] dbg = Inr (demo_g dbg)"
  unfolding demo_g_def by (rule demo_grid)

lemma single_g_built: "Grid_init demo_files [''a''] dbg = Inr (single_g dbg)"
  unfolding single_g_def by (rule single_grid)

section \<open>Bisection\<close>

text \<open>
  The loop of \<open>locate_x\<close> keeps \<open>k_0 < k_1\<close>, the axis value at \<open>k_0\<close> at most \<open>x\<close> and
  the axis value at \<open>k_1\<close> above \<open>x\<close>, so it returns the interval of \<open>x\<close>.
\<close>

declare locate_loop.simps [simp del]

lemma np_get_first: "a \<noteq> [] \<Longrightarrow> np_get a 0 = Inr (a ! 0)"
  by (simp add: np_get_def np_index_def)

lemma np_get_last: "a \<noteq> [] \<Longrightarrow> np_get a (- 1) = Inr (last a)"
  by (cases a rule: rev_cases) (simp_all add: np_get_def np_index_def)

lemma np_get_int: "0 \<le> k \<Longrightarrow> k < int (length a) \<Longrightarrow> np_get a k = Inr (a ! nat k)"
  by (simp add: np_get_def np_index_def)

lemma locate_loop_result:
  "- 1 \<le> k_0 \<Longrightarrow> k_0 < k_1 \<Longrightarrow> k_1 \<le> int (length a) \<Longrightarrow>
   (0 \<le> k_0 \<longrightarrow> a ! nat k_0 \<le> x) \<Longrightarrow> (k_1 < int (length a) \<longrightarrow> x < a ! nat k_1) \<Longrightarrow>
   \<exists>r. locate_loop x a k_0 k_1 = Inr r \<and> - 1 \<le> r \<and> r < int (length a)
       \<and> (0 \<le> r \<longrightarrow> a ! nat r \<le> x) \<and> (r + 1 < int (length a) \<longrightarrow> x < a ! nat (r + 1))"
proof (induction x a k_0 k_1 rule: locate_loop.induct)
  case (1 x a k_0 k_1)
  show ?case
  proof (cases "k_1 - k_0 > 1")
    case False
    with "1.prems" have "k_1 = k_0 + 1" by simp
    moreover from False have "locate_loop x a k_0 k_1 = Inr k_0"
      by (subst locate_loop.simps) simp
    ultimately show ?thesis using "1.prems" by auto
  next
    case True
    define k where "k = (k_0 + k_1) div 2"
    from True have k: "k_0 < k" "k < k_1" by (simp_all add: k_def)
    with "1.prems" have kr: "0 \<le> k" "k < int (length a)" by simp_all
    then have get: "np_get a k = Inr (a ! nat k)" by (rule np_get_int)
    show ?thesis
    proof (cases "x \<ge> a ! nat k")
      case ge: True
      have step: "locate_loop x a k_0 k_1 = locate_loop x a k k_1"
        using True ge get by (subst locate_loop.simps) (simp add: k_def)
      have "\<exists>r. locate_loop x a k k_1 = Inr r \<and> - 1 \<le> r \<and> r < int (length a)
       \<and> (0 \<le> r \<longrightarrow> a ! nat r \<le> x) \<and> (r + 1 < int (length a) \<longrightarrow> x < a ! nat (r + 1))"
        unfolding k_def
      proof (rule "1.IH"(1) [OF True])
        show "np_get a ((k_0 + k_1) div 2) = Inr (a ! nat k)" using get by (simp add: k_def)
        show "a ! nat k \<le> x" by (rule ge)
      qed (use k kr ge "1.prems" in \<open>simp_all add: k_def\<close>)
      with step show ?thesis by simp
    next
      case lt: False
      have step: "locate_loop x a k_0 k_1 = locate_loop x a k_0 k"
        using True lt get by (subst locate_loop.simps) (simp add: k_def)
      have "\<exists>r. locate_loop x a k_0 k = Inr r \<and> - 1 \<le> r \<and> r < int (length a)
       \<and> (0 \<le> r \<longrightarrow> a ! nat r \<le> x) \<and> (r + 1 < int (length a) \<longrightarrow> x < a ! nat (r + 1))"
        unfolding k_def
      proof (rule "1.IH"(2) [OF True])
        show "np_get a ((k_0 + k_1) div 2) = Inr (a ! nat k)" using get by (simp add: k_def)
        show "\<not> a ! nat k \<le> x" by (rule lt)
      qed (use k kr lt "1.prems" in \<open>simp_all add: k_def\<close>)
      with step show ?thesis by simp
    qed
  qed
qed

lemma strict_nth_mono:
  "sorted_wrt (<) (a::real list) \<Longrightarrow> i \<le> j \<Longrightarrow> j < length a \<Longrightarrow> a ! i \<le> a ! j"
  by (simp add: strict_sorted_iff sorted_nth_mono)

lemma locate_x_result:
  assumes ne: "a \<noteq> []" and inc: "sorted_wrt (<) a"
    and lo: "a ! 0 \<le> x" and hi: "x \<le> last a"
  shows "\<exists>r. locate_x x a = Inr r \<and> 0 \<le> r \<and> r + 1 < max 2 (int (length a))
           \<and> a ! nat r \<le> x
           \<and> (2 \<le> length a \<longrightarrow>
                x < a ! nat (r + 1) \<or> (x = last a \<and> r = int (length a) - 2))"
proof -
  note first = np_get_first [OF ne] and final = np_get_last [OF ne]
  have last: "last a = a ! (length a - 1)" using ne by (rule last_conv_nth)
  show ?thesis
  proof (cases "x = a ! 0")
    case True
    then have "locate_x x a = Inr 0" by (simp add: locate_x_def first)
    moreover have "x < a ! nat (0 + 1)" if "2 \<le> length a"
      using sorted_wrt_nth_less [OF inc, of 0 1] that True by simp
    ultimately show ?thesis using True by auto
  next
    case nf: False
    show ?thesis
    proof (cases "x = last a")
      case True
      with nf last have two: "2 \<le> length a"
        by (cases "length a = 1") (use ne in auto)
      have "locate_x x a = Inr (int (length a) - 2)"
        using nf True by (simp add: locate_x_def first final)
      moreover have "a ! nat (int (length a) - 2) \<le> x"
      proof -
        have "length a - 2 \<le> length a - 1" "length a - 1 < length a" using two by auto
        from strict_nth_mono [OF inc this] True last two show ?thesis
          by (simp add: nat_diff_distrib')
      qed
      ultimately show ?thesis using two True by auto
    next
      case nl: False
      have "\<exists>r. locate_loop x a (- 1) (int (length a)) = Inr r \<and> - 1 \<le> r \<and> r < int (length a)
         \<and> (0 \<le> r \<longrightarrow> a ! nat r \<le> x) \<and> (r + 1 < int (length a) \<longrightarrow> x < a ! nat (r + 1))"
        using ne by (intro locate_loop_result) simp_all
      then obtain r where r: "locate_loop x a (- 1) (int (length a)) = Inr r"
        "- 1 \<le> r" "r < int (length a)" "0 \<le> r \<longrightarrow> a ! nat r \<le> x"
        "r + 1 < int (length a) \<longrightarrow> x < a ! nat (r + 1)" by blast
      have r0: "0 \<le> r"
      proof (rule ccontr)
        assume "\<not> 0 \<le> r"
        with r(2) have "r = - 1" by simp
        with r(5) ne lo show False by simp
      qed
      have r1: "r + 1 < int (length a)"
      proof (rule ccontr)
        assume "\<not> r + 1 < int (length a)"
        with r(3) have "nat r = length a - 1" by auto
        with r(4) r0 last hi nl show False by simp
      qed
      have "locate_x x a = Inr r"
        using nf nl r(1) by (simp add: locate_x_def first final)
      with r0 r1 r(4,5) show ?thesis by auto
    qed
  qed
qed

lemma locate_x_law:
  assumes two: "2 \<le> length a" and inc: "sorted_wrt (<) a"
    and lo: "a ! 0 \<le> x" and hi: "x \<le> last a"
  shows "\<exists>r. locate_x x a = Inr r \<and> 0 \<le> r \<and> r \<le> int (length a) - 2 \<and> locate_law a x r"
proof -
  from two have ne: "a \<noteq> []" by auto
  have last: "last a = a ! (length a - 1)" using ne by (rule last_conv_nth)
  from locate_x_result [OF ne inc lo hi] two obtain r where
    r: "locate_x x a = Inr r" "0 \<le> r" "r + 1 < int (length a)" "a ! nat r \<le> x"
       "x < a ! nat (r + 1) \<or> (x = last a \<and> r = int (length a) - 2)"
    by auto
  have nr: "nat (r + 1) = Suc (nat r)" "Suc (nat r) < length a" using r(2,3) by auto
  have 1: "r = 0" if "x = a ! 0"
  proof (rule ccontr)
    assume "r \<noteq> 0"
    with r(2) have "0 < nat r" by simp
    from sorted_wrt_nth_less [OF inc this] nr(2) r(4) that show False by simp
  qed
  have nolast: "\<not> x < a ! nat (r + 1)" if "x = last a"
  proof -
    have "Suc (nat r) \<le> length a - 1" "length a - 1 < length a" using nr by auto
    from strict_nth_mono [OF inc this] nr(1) that last show ?thesis by simp
  qed
  have 2: "r = int (length a) - 2" if "x = last a"
    using r(5) nolast [OF that] by simp
  have 3: "r = int k" if k: "k \<in> {0..<length a - 1}" "a ! k < x" "x < a ! Suc k" for k
  proof -
    from k(1) have kk: "Suc k < length a" by simp
    have "x \<noteq> last a"
    proof -
      have "Suc k \<le> length a - 1" "length a - 1 < length a" using kk by auto
      from strict_nth_mono [OF inc this] k(3) last show ?thesis by simp
    qed
    with r(5) have up: "x < a ! Suc (nat r)" by (simp add: nr)
    have "\<not> nat r < k"
    proof
      assume "nat r < k"
      then have "Suc (nat r) \<le> k" "k < length a" using kk by auto
      then have "a ! Suc (nat r) \<le> a ! k" by (rule strict_nth_mono [OF inc])
      with up k(2) show False by simp
    qed
    moreover have "\<not> k < nat r"
    proof
      assume "k < nat r"
      then have "Suc k \<le> nat r" "nat r < length a" using nr by auto
      then have "a ! Suc k \<le> a ! nat r" by (rule strict_nth_mono [OF inc])
      with r(4) k(3) show False by simp
    qed
    ultimately show ?thesis using r(2) by simp
  qed
  from r(1,2,3) 1 2 3 show ?thesis unfolding locate_law_def by auto
qed

lemma outside_eq: "a \<noteq> [] \<Longrightarrow> outside x a = Inr (x < a ! 0 \<or> x > last a)"
  by (simp add: outside_def np_get_first np_get_last)

lemma debug_report_ok:
  assumes "0 \<le> i" "i + 1 < int (length (Teff_axis self))"
    and "0 \<le> j" "j + 1 < int (length (logg_axis self))"
  shows "debug_report self i j = Inr ()"
  using assms by (simp add: debug_report_def np_get_int)

lemma locate_outside_Teff:
  assumes "Teff_axis self \<noteq> []" and "T < Teff_axis self ! 0 \<or> T > last (Teff_axis self)"
  shows "locate self T L = Inl (IndexError (outside_msg ''Teff''))"
  using assms by (simp add: locate_def outside_eq)

lemma locate_outside_logg:
  assumes "Teff_axis self \<noteq> []" "logg_axis self \<noteq> []"
    and "\<not> (T < Teff_axis self ! 0 \<or> T > last (Teff_axis self))"
    and "L < logg_axis self ! 0 \<or> L > last (logg_axis self)"
  shows "locate self T L = Inl (IndexError (outside_msg ''logg''))"
  using assms by (simp add: locate_def outside_eq)

lemma locate_inside:
  assumes "Teff_axis self \<noteq> []" "logg_axis self \<noteq> []"
    and "\<not> (T < Teff_axis self ! 0 \<or> T > last (Teff_axis self))"
    and "\<not> (L < logg_axis self ! 0 \<or> L > last (logg_axis self))"
    and "locate_x T (Teff_axis self) = Inr i" "locate_x L (logg_axis self) = Inr j"
  shows "locate self T L =
           (if debug self then
              (case debug_report self i j of Inl e \<Rightarrow> Inl e | Inr _ \<Rightarrow> Inr (i, j))
            else Inr (i, j))"
  using assms by (simp add: locate_def outside_eq)

lemma locate_range_law:
  assumes inc: "sorted_wrt (<) (Teff_axis self)" "sorted_wrt (<) (logg_axis self)"
    and ne: "Teff_axis self \<noteq> []" "logg_axis self \<noteq> []"
    and dbg: "debug self \<longrightarrow> 2 \<le> length (Teff_axis self) \<and> 2 \<le> length (logg_axis self)"
  shows "(\<exists>e. locate self T L = Inl e) \<longleftrightarrow>
           (T < Teff_axis self ! 0 \<or> T > last (Teff_axis self)
            \<or> L < logg_axis self ! 0 \<or> L > last (logg_axis self))"
proof (cases "T < Teff_axis self ! 0 \<or> T > last (Teff_axis self)")
  case True
  from locate_outside_Teff [OF ne(1) True, of L] True show ?thesis by auto
next
  case inT: False
  show ?thesis
  proof (cases "L < logg_axis self ! 0 \<or> L > last (logg_axis self)")
    case True
    from locate_outside_logg [OF ne inT True] True show ?thesis by auto
  next
    case inL: False
    from inT have T: "Teff_axis self ! 0 \<le> T" "T \<le> last (Teff_axis self)" by auto
    from inL have L: "logg_axis self ! 0 \<le> L" "L \<le> last (logg_axis self)" by auto
    from locate_x_result [OF ne(1) inc(1) T] obtain i where
      i: "locate_x T (Teff_axis self) = Inr i" "0 \<le> i"
         "i + 1 < max 2 (int (length (Teff_axis self)))" by blast
    from locate_x_result [OF ne(2) inc(2) L] obtain j where
      j: "locate_x L (logg_axis self) = Inr j" "0 \<le> j"
         "j + 1 < max 2 (int (length (logg_axis self)))" by blast
    have "locate self T L = Inr (i, j)"
    proof (cases "debug self")
      case False
      with locate_inside [OF ne inT inL i(1) j(1)] show ?thesis by simp
    next
      case True
      with dbg i(2,3) j(2,3) have "debug_report self i j = Inr ()"
        by (intro debug_report_ok) auto
      with True locate_inside [OF ne inT inL i(1) j(1)] show ?thesis by simp
    qed
    with inT inL show ?thesis by simp
  qed
qed

section \<open>find_derivs away from the upper boundaries\<close>

lemma find_derivs_interior:
  assumes g: "Grid_init files filenames dbg = Inr g"
    and i: "0 \<le> i" "i + 1 < int (n_Teff g)" and j: "0 \<le> j" "j + 1 < int (n_logg g)"
  shows "find_derivs g (i, j) True =
           Inr [Entry (occupied g (i - 1) (j - 1)), Entry (occupied g (i + 1) (j - 1)), Row_end,
                Entry (occupied g (i - 1) (j + 1)), Entry (occupied g (i + 1) (j + 1)), Row_end]"
    and "find_derivs g (i, j) False = Inr []"
proof -
  from g have n: "n_Teff g = length (Teff_axis g)" "n_logg g = length (logg_axis g)"
    and sh: "shape (n_Teff g) (n_logg g) (nodes g)"
    by (rule Grid_init_Inr; simp)+
  have axT: "\<exists>v. np_get (Teff_axis g) (i + d) = Inr v" if "d \<in> {- 1, 0, 1}" for d
    using that i n by (auto simp: np_get_def np_index_def)
  have axL: "\<exists>v. np_get (logg_axis g) (j + d) = Inr v" if "d \<in> {- 1, 0, 1}" for d
    using that j n by (auto simp: np_get_def np_index_def)
  from axT [of "- 1"] axT [of 0] axT [of 1] obtain t1 t2 t3 where
    t: "np_get (Teff_axis g) (i - 1) = Inr t1" "np_get (Teff_axis g) i = Inr t2"
       "np_get (Teff_axis g) (i + 1) = Inr t3" by auto
  from axL [of "- 1"] axL [of 0] axL [of 1] obtain l1 l2 l3 where
    l: "np_get (logg_axis g) (j - 1) = Inr l1" "np_get (logg_axis g) j = Inr l2"
       "np_get (logg_axis g) (j + 1) = Inr l3" by auto
  have c: "np_get2 (nodes g) i j = Inr (nodes g ! nat i ! nat j)"
    using np_get2_nat [OF sh, of "nat i" "nat j"] i j by simp
  note fn = Grid_init_find_neighbors [OF g, of "(i, j)"]
  have e: "np_get2 (stencil_of g (i, j)) (dh + 1) (dk + 1) = Inr (occupied g (i + dh) (j + dk))"
    if "dh \<in> {- 1, 0, 1}" "dk \<in> {- 1, 0, 1}" for dh dk
    using stencil_of_entry [OF that, of g "(i, j)"] by simp
  have e4: "np_get2 (stencil_of g (i, j)) 0 0 = Inr (occupied g (i - 1) (j - 1))"
    "np_get2 (stencil_of g (i, j)) 2 0 = Inr (occupied g (i + 1) (j - 1))"
    "np_get2 (stencil_of g (i, j)) 0 2 = Inr (occupied g (i - 1) (j + 1))"
    "np_get2 (stencil_of g (i, j)) 2 2 = Inr (occupied g (i + 1) (j + 1))"
    using e [of "- 1" "- 1"] e [of 1 "- 1"] e [of "- 1" 1] e [of 1 1] by simp_all
  show "find_derivs g (i, j) True =
           Inr [Entry (occupied g (i - 1) (j - 1)), Entry (occupied g (i + 1) (j - 1)), Row_end,
                Entry (occupied g (i - 1) (j + 1)), Entry (occupied g (i + 1) (j + 1)), Row_end]"
    by (simp add: find_derivs_def derivs_row_def derivs_probe_def t l c fn e4)
  show "find_derivs g (i, j) False = Inr []"
    by (simp add: find_derivs_def derivs_row_def derivs_probe_def t l c fn)
qed

section \<open>The claims\<close>




text \<open>
  C2. For a grid whose axes are strictly increasing and have at least two values each,
  and a query with both coordinates inside the closed axis ranges: \<open>locate\<close> returns the
  pair \<open>(i, j)\<close> of the results of \<open>locate_x\<close> on the two axes, and each of them obeys
  the boundary law: it is \<open>0\<close> when the query equals the first axis value, \<open>n - 2\<close> when it
  equals the last, and \<open>k\<close> when the query is strictly between the values at \<open>k\<close> and
  \<open>k + 1\<close>.
\<close>

theorem locate_boundary_law:
  assumes "sorted_wrt (<) (Teff_axis self)" "2 \<le> length (Teff_axis self)"
    and "sorted_wrt (<) (logg_axis self)" "2 \<le> length (logg_axis self)"
    and "Teff_axis self ! 0 \<le> T" "T \<le> last (Teff_axis self)"
    and "logg_axis self ! 0 \<le> L" "L \<le> last (logg_axis self)"
  shows "\<exists>i j. locate self T L = Inr (i, j)
           \<and> locate_x T (Teff_axis self) = Inr i \<and> locate_law (Teff_axis self) T i
           \<and> locate_x L (logg_axis self) = Inr j \<and> locate_law (logg_axis self) L j"
proof -
  from locate_x_law [OF assms(2,1,5,6)] obtain i where
    i: "locate_x T (Teff_axis self) = Inr i" "0 \<le> i" "i \<le> int (length (Teff_axis self)) - 2"
       "locate_law (Teff_axis self) T i" by blast
  from locate_x_law [OF assms(4,3,7,8)] obtain j where
    j: "locate_x L (logg_axis self) = Inr j" "0 \<le> j" "j \<le> int (length (logg_axis self)) - 2"
       "locate_law (logg_axis self) L j" by blast
  have ne: "Teff_axis self \<noteq> []" "logg_axis self \<noteq> []" using assms(2,4) by auto
  have rep: "debug_report self i j = Inr ()"
    using i(2,3) j(2,3) by (intro debug_report_ok) simp_all
  have "locate self T L = Inr (i, j)"
    using locate_inside [OF ne _ _ i(1) j(1), of ] assms(5-8) rep by simp
  with i j show ?thesis by blast
qed

theorem locate_boundary_law_witness:
  "\<exists>g. Grid_init demo_files [''a'', ''c'', ''e''] True = Inr g
      \<and> Teff_axis g = [10000, 20000, 30000] \<and> logg_axis g = [3, 35 / 10, 4]
      \<and> sorted_wrt (<) (Teff_axis g) \<and> 2 \<le> length (Teff_axis g)
      \<and> sorted_wrt (<) (logg_axis g) \<and> 2 \<le> length (logg_axis g)
      \<and> Teff_axis g ! 0 \<le> 25000 \<and> 25000 \<le> last (Teff_axis g)
      \<and> logg_axis g ! 0 \<le> 32 / 10 \<and> 32 / 10 \<le> last (logg_axis g)
      \<and> locate g 25000 (32 / 10) = Inr (1, 0)"
proof -
  have ne: "[''a'', ''c'', ''e''] \<noteq> []" by simp
  from Grid_init_built [OF ne diag_read, of True] obtain g where
    g: "Grid_init demo_files [''a'', ''c'', ''e''] True = Inr g"
       "Teff_axis g = np_unique (map Teff [node_a, node_c, node_e])"
       "logg_axis g = np_unique (map logg [node_a, node_c, node_e])"
    by force
  have ax: "Teff_axis g = [10000, 20000, 30000]" "logg_axis g = [3, 35 / 10, 4]"
    by (simp_all add: g np_unique_def node_a_def node_c_def node_e_def)
  have h: "sorted_wrt (<) (Teff_axis g)" "2 \<le> length (Teff_axis g)"
    "sorted_wrt (<) (logg_axis g)" "2 \<le> length (logg_axis g)"
    "Teff_axis g ! 0 \<le> 25000" "25000 \<le> last (Teff_axis g)"
    "logg_axis g ! 0 \<le> 32 / 10" "32 / 10 \<le> last (logg_axis g)"
    by (simp_all add: ax)
  from locate_boundary_law [OF h] obtain i j where
    ij: "locate g 25000 (32 / 10) = Inr (i, j)"
        "locate_law (Teff_axis g) 25000 i" "locate_law (logg_axis g) (32 / 10) j"
    by blast
  from ij(2) have "i = 1"
    unfolding locate_law_def ax by (auto dest: bspec [where x = 1])
  moreover from ij(3) have "j = 0"
    unfolding locate_law_def ax by (auto dest: bspec [where x = 0])
  ultimately have "locate g 25000 (32 / 10) = Inr (1, 0)" using ij(1) by simp
  with g(1) ax h show ?thesis by blast
qed

text \<open>
  C3, at an input where the code leaves the claim. The file \<open>a\<close> alone gives a grid with
  one value on each axis. With the debug flag set, \<open>locate\<close> at the coordinates of the
  node, which are inside both closed axis ranges, raises \<open>IndexError\<close>: the debug block
  reads \<open>Teff_axis[i + 1]\<close> for \<open>i = 0\<close>. With the flag not set it returns \<open>(0, 0)\<close>.
\<close>

theorem locate_debug_single_value_axis:
  "Grid_init demo_files [''a''] True = Inr (single_g True)
   \<and> Teff_axis (single_g True) = [10000] \<and> logg_axis (single_g True) = [3]
   \<and> locate (single_g True) 10000 3 = Inl (IndexError bounds_msg)
   \<and> locate (single_g False) 10000 3 = Inr (0, 0)"
proof -
  have "locate (single_g True) 10000 3 = Inl (IndexError bounds_msg)"
    by (simp add: locate_def outside_def locate_x_def debug_report_def np_get_def np_index_def
        single_g_def)
  moreover have "locate (single_g False) 10000 3 = Inr (0, 0)"
    by (simp add: locate_def outside_def locate_x_def np_get_def np_index_def single_g_def)
  ultimately show ?thesis
    using single_g_built [of True] by (simp add: single_g_def)
qed

text \<open>
  C4. In a constructed grid, \<open>lookup T L\<close> returns \<open>None\<close> when \<open>T\<close> is not a value of
  \<open>Teff_axis\<close> or \<open>L\<close> is not a value of \<open>logg_axis\<close>; when \<open>T\<close> and \<open>L\<close> are the axis
  values at \<open>i\<close> and \<open>j\<close>, it returns \<open>None\<close> if the cell \<open>(i, j)\<close> is empty and the node
  of the cell otherwise. It never raises. (\<open>lookup\<close> returns a value only: the grid is
  not changed.)
\<close>

theorem lookup_cases:
  assumes "Grid_init files filenames dbg = Inr g"
  shows "(T \<notin> set (Teff_axis g) \<or> L \<notin> set (logg_axis g) \<longrightarrow> lookup g T L = Inr None)
       \<and> (T \<in> set (Teff_axis g) \<and> L \<in> set (logg_axis g) \<longrightarrow>
            (\<exists>i j. i < n_Teff g \<and> j < n_logg g \<and> Teff_axis g ! i = T \<and> logg_axis g ! j = L))
       \<and> (\<forall>i j. i < n_Teff g \<and> j < n_logg g \<and> Teff_axis g ! i = T \<and> logg_axis g ! j = L \<longrightarrow>
            (nodes g ! i ! j = None \<longrightarrow> lookup g T L = Inr None)
          \<and> (\<forall>node. nodes g ! i ! j = Some node \<longrightarrow> lookup g T L = Inr (Some node)))"
proof (rule Grid_init_Inr [OF assms])
  fix ns
  assume g: "Teff_axis g = np_unique (map Teff ns)" "logg_axis g = np_unique (map logg ns)"
    "n_Teff g = length (Teff_axis g)" "n_logg g = length (logg_axis g)"
    "shape (n_Teff g) (n_logg g) (nodes g)"
  have cell: "lookup g (Teff_axis g ! i) (logg_axis g ! j) = Inr (nodes g ! i ! j)"
    if "i < n_Teff g" "j < n_logg g" for i j
    using that g(3,4,5) by (intro lookup_cell) (simp_all add: g(1,2) np_unique_distinct)
  have "T \<notin> set (Teff_axis g) \<or> L \<notin> set (logg_axis g) \<longrightarrow> lookup g T L = Inr None"
    using lookup_absent by blast
  moreover have "T \<in> set (Teff_axis g) \<and> L \<in> set (logg_axis g) \<longrightarrow>
            (\<exists>i j. i < n_Teff g \<and> j < n_logg g \<and> Teff_axis g ! i = T \<and> logg_axis g ! j = L)"
    unfolding g(3,4) by (auto simp: in_set_conv_nth)
  ultimately show ?thesis using cell by auto
qed

theorem lookup_cases_witness:
  "Grid_init demo_files [''a'', ''b'', ''c''] False = Inr (demo_g False)
   \<and> lookup (demo_g False) 5 3 = Inr None
   \<and> Teff_axis (demo_g False) ! 0 = 10000 \<and> logg_axis (demo_g False) ! 1 = 35 / 10
   \<and> nodes (demo_g False) ! 0 ! 1 = None
   \<and> lookup (demo_g False) 10000 (35 / 10) = Inr None
   \<and> Teff_axis (demo_g False) ! 1 = 20000 \<and> nodes (demo_g False) ! 1 ! 1 = Some node_c
   \<and> lookup (demo_g False) 20000 (35 / 10) = Inr (Some node_c)"
proof -
  note g = demo_g_built [of False]
  have 1: "lookup (demo_g False) 5 3 = Inr None"
    using lookup_cases [OF g, of 5 3] by (simp add: demo_g_def)
  have 2: "lookup (demo_g False) 10000 (35 / 10) = Inr None"
    using lookup_cases [OF g, of 10000 "35 / 10", THEN conjunct2, THEN conjunct2,
        THEN spec [where x = 0], THEN spec [where x = 1]] by (simp add: demo_g_def)
  have 3: "lookup (demo_g False) 20000 (35 / 10) = Inr (Some node_c)"
    using lookup_cases [OF g, of 20000 "35 / 10", THEN conjunct2, THEN conjunct2,
        THEN spec [where x = 1], THEN spec [where x = 1]] by (simp add: demo_g_def)
  show ?thesis
    using g 1 2 3 by (simp add: demo_g_def)
qed

text \<open>
  C5. Occupancy round trip: when the input nodes have pairwise distinct
  \<open>(Teff, logg)\<close> pairs, the constructor returns a grid in which, for every input node,
  \<open>lookup\<close> at the node's coordinates returns that node.
\<close>

theorem lookup_round_trip:
  assumes "filenames \<noteq> []" and "read_nodes files filenames = Inr ns"
    and "distinct (map (\<lambda>n. (Teff n, logg n)) ns)" and "node \<in> set ns"
  shows "\<exists>g. Grid_init files filenames dbg = Inr g
           \<and> lookup g (Teff node) (logg node) = Inr (Some node)"
proof -
  from Grid_init_built [OF assms(1,2), of dbg] obtain g where
    g: "Grid_init files filenames dbg = Inr g" by blast
  from lookup_last_node_at [OF g assms(2)] last_node_at_distinct [OF assms(3,4)]
  have "lookup g (Teff node) (logg node) = Inr (Some node)" by simp
  with g show ?thesis by blast
qed

theorem lookup_round_trip_witness:
  "[''a'', ''b'', ''c''] \<noteq> []
   \<and> read_nodes demo_files [''a'', ''b'', ''c''] = Inr [node_a, node_b, node_c]
   \<and> distinct (map (\<lambda>n. (Teff n, logg n)) [node_a, node_b, node_c])
   \<and> node_c \<in> set [node_a, node_b, node_c]
   \<and> (\<exists>g. Grid_init demo_files [''a'', ''b'', ''c''] False = Inr g
           \<and> lookup g (Teff node_c) (logg node_c) = Inr (Some node_c))"
proof -
  have ne: "[''a'', ''b'', ''c''] \<noteq> []" by simp
  have d: "distinct (map (\<lambda>n. (Teff n, logg n)) [node_a, node_b, node_c])"
    by (simp add: node_a_def node_b_def node_c_def)
  have m: "node_c \<in> set [node_a, node_b, node_c]" by simp
  show ?thesis
    using ne demo_read d m lookup_round_trip [OF ne demo_read d m, of False] by blast
qed

text \<open>
  C6. For every non-empty list of inputs whose files can be read, the constructor
  returns a grid whose \<open>Teff_axis\<close> and \<open>logg_axis\<close> are strictly increasing, have no
  duplicates, and are the ascending sort of the set of the \<open>Teff\<close> (respectively \<open>logg\<close>)
  values of the input nodes.
\<close>

theorem axes_sorted_unique:
  assumes "filenames \<noteq> []" and "read_nodes files filenames = Inr ns"
  shows "\<exists>g. Grid_init files filenames dbg = Inr g
           \<and> sorted_wrt (<) (Teff_axis g) \<and> distinct (Teff_axis g)
           \<and> Teff_axis g = sorted_list_of_set (Teff ` set ns)
           \<and> sorted_wrt (<) (logg_axis g) \<and> distinct (logg_axis g)
           \<and> logg_axis g = sorted_list_of_set (logg ` set ns)"
proof -
  from Grid_init_built [OF assms, of dbg] obtain g where
    g: "Grid_init files filenames dbg = Inr g"
       "Teff_axis g = np_unique (map Teff ns)" "logg_axis g = np_unique (map logg ns)"
    by force
  have "sorted_wrt (<) (Teff_axis g)" "sorted_wrt (<) (logg_axis g)"
    by (simp_all add: g np_unique_strict)
  moreover have "distinct (Teff_axis g)" "distinct (logg_axis g)"
    by (simp_all add: g np_unique_distinct)
  moreover have "Teff_axis g = sorted_list_of_set (Teff ` set ns)"
    "logg_axis g = sorted_list_of_set (logg ` set ns)"
    by (simp_all add: g np_unique_sorted_list)
  ultimately show ?thesis using g(1) by blast
qed

theorem axes_sorted_unique_witness:
  "[''a'', ''b'', ''c''] \<noteq> []
   \<and> read_nodes demo_files [''a'', ''b'', ''c''] = Inr [node_a, node_b, node_c]
   \<and> (\<exists>g. Grid_init demo_files [''a'', ''b'', ''c''] False = Inr g
           \<and> sorted_wrt (<) (Teff_axis g) \<and> distinct (Teff_axis g)
           \<and> Teff_axis g = sorted_list_of_set (Teff ` set [node_a, node_b, node_c])
           \<and> sorted_wrt (<) (logg_axis g) \<and> distinct (logg_axis g)
           \<and> logg_axis g = sorted_list_of_set (logg ` set [node_a, node_b, node_c]))"
proof -
  have ne: "[''a'', ''b'', ''c''] \<noteq> []" by simp
  show ?thesis
    using ne demo_read axes_sorted_unique [OF ne demo_read, of False] by blast
qed

text \<open>
  C7. In a constructed grid, for every cell \<open>(i, j)\<close> and all offsets \<open>dh\<close>, \<open>dk\<close> in
  \<open>{-1, 0, 1}\<close>: the stencil stored at \<open>neighbors[i, j]\<close> is the one that
  \<open>find_neighbors (i, j)\<close> returns, and its entry \<open>[dh + 1, dk + 1]\<close> is true if and only
  if \<open>0 \<le> i + dh < n_Teff\<close>, \<open>0 \<le> j + dk < n_logg\<close> and the cell \<open>(i + dh, j + dk)\<close> holds
  a node.
\<close>

theorem stencil_entries:
  assumes "Grid_init files filenames dbg = Inr g"
    and "i < n_Teff g" "j < n_logg g"
    and "dh \<in> {- 1, 0, 1}" "dk \<in> {- 1, 0, 1}"
  shows "\<exists>m b. np_get2 (neighbors g) (int i) (int j) = Inr (Some m)
           \<and> find_neighbors g (int i, int j) = Inr m
           \<and> np_get2 m (dh + 1) (dk + 1) = Inr b
           \<and> (b \<longleftrightarrow> 0 \<le> int i + dh \<and> int i + dh < int (n_Teff g)
                    \<and> 0 \<le> int j + dk \<and> int j + dk < int (n_logg g)
                    \<and> nodes g ! nat (int i + dh) ! nat (int j + dk) \<noteq> None)"
proof (rule Grid_init_Inr [OF assms(1)])
  assume sh: "shape (n_Teff g) (n_logg g) (neighbors g)"
    and st: "\<And>i j. i < n_Teff g \<Longrightarrow> j < n_logg g \<Longrightarrow>
       neighbors g ! i ! j = Some (stencil_of g (int i, int j))"
  let ?m = "stencil_of g (int i, int j)"
  let ?b = "occupied g (int i + dh) (int j + dk)"
  have "np_get2 (neighbors g) (int i) (int j) = Inr (Some ?m)"
    using np_get2_nat [OF sh assms(2,3)] st [OF assms(2,3)] by simp
  moreover have "find_neighbors g (int i, int j) = Inr ?m"
    using assms(1) by (rule Grid_init_find_neighbors)
  moreover have "np_get2 ?m (dh + 1) (dk + 1) = Inr ?b"
    using stencil_of_entry [OF assms(4,5), of g "(int i, int j)"] by simp
  moreover have "?b \<longleftrightarrow> 0 \<le> int i + dh \<and> int i + dh < int (n_Teff g)
                    \<and> 0 \<le> int j + dk \<and> int j + dk < int (n_logg g)
                    \<and> nodes g ! nat (int i + dh) ! nat (int j + dk) \<noteq> None"
    by (auto simp: occupied_def isinstance_Node_def split: option.splits)
  ultimately show ?thesis by blast
qed

theorem stencil_entries_witness:
  "Grid_init demo_files [''a'', ''b'', ''c''] False = Inr (demo_g False)
   \<and> 0 < n_Teff (demo_g False) \<and> 0 < n_logg (demo_g False)
   \<and> (1::int) \<in> {- 1, 0, 1}
   \<and> (\<exists>m. np_get2 (neighbors (demo_g False)) 0 0 = Inr (Some m)
          \<and> find_neighbors (demo_g False) (0, 0) = Inr m
          \<and> np_get2 m 2 2 = Inr True)
   \<and> nodes (demo_g False) ! 1 ! 1 \<noteq> None"
proof -
  note g = demo_g_built [of False]
  have i: "0 < n_Teff (demo_g False)" and j: "0 < n_logg (demo_g False)"
    by (simp_all add: demo_g_def)
  have d: "(1::int) \<in> {- 1, 0, 1}" by simp
  have c: "nodes (demo_g False) ! 1 ! 1 \<noteq> None" by (simp add: demo_g_def)
  from stencil_entries [OF g i j d d] obtain m b where
    m: "np_get2 (neighbors (demo_g False)) (int 0) (int 0) = Inr (Some m)"
       "find_neighbors (demo_g False) (int 0, int 0) = Inr m"
       "np_get2 m (1 + 1) (1 + 1) = Inr b"
       "b \<longleftrightarrow> 0 \<le> int 0 + 1 \<and> int 0 + 1 < int (n_Teff (demo_g False))
            \<and> 0 \<le> int 0 + 1 \<and> int 0 + 1 < int (n_logg (demo_g False))
            \<and> nodes (demo_g False) ! nat (int 0 + 1) ! nat (int 0 + 1) \<noteq> None"
    by blast
  from m(4) have b by (simp add: demo_g_def)
  with m(1-3) have "\<exists>m. np_get2 (neighbors (demo_g False)) 0 0 = Inr (Some m)
          \<and> find_neighbors (demo_g False) (0, 0) = Inr m
          \<and> np_get2 m 2 2 = Inr True"
    by simp
  with g i j d c show ?thesis by blast
qed

text \<open>
  C8. Constructing a Grid from an empty list of inputs raises the exception
  \<^verbatim>\<open>Exception('Empty grid')\<close>: the result is an error and no grid, whatever the files
  and the debug flag are.
\<close>

theorem Grid_init_empty:
  "Grid_init files [] dbg = Inl (Exception ''Empty grid'')"
  by (simp add: Grid_init_def)

text \<open>
  C9, at inputs where the code leaves the claim. In the grid of the file \<open>a\<close> alone,
  \<open>locate\<close> at the coordinates of the node returns the cell \<open>(0, 0)\<close>, and \<open>find_derivs\<close>
  at this cell raises \<open>IndexError\<close>: it reads \<open>Teff_axis[0 + 1]\<close>. In the \<open>2 \<times> 2\<close> grid of
  \<open>a\<close>, \<open>b\<close>, \<open>c\<close> it raises at the cell \<open>(1, 0)\<close>, which is on the upper boundary of the
  \<open>Teff\<close> axis, and reports the four diagonal entries at the cell \<open>(0, 0)\<close>.
\<close>

theorem find_derivs_boundary_error:
  "Grid_init demo_files [''a''] False = Inr (single_g False)
   \<and> locate (single_g False) 10000 3 = Inr (0, 0)
   \<and> find_derivs (single_g False) (0, 0) True = Inl (IndexError bounds_msg)
   \<and> find_derivs (single_g False) (0, 0) False = Inl (IndexError bounds_msg)
   \<and> Grid_init demo_files [''a'', ''b'', ''c''] False = Inr (demo_g False)
   \<and> find_derivs (demo_g False) (1, 0) True = Inl (IndexError bounds_msg)
   \<and> find_derivs (demo_g False) (0, 0) True
       = Inr [Entry False, Entry False, Row_end, Entry False, Entry True, Row_end]"
proof -
  note fs = Grid_init_find_neighbors [OF single_g_built [of False]]
  note fd = Grid_init_find_neighbors [OF demo_g_built [of False]]
  have 1: "locate (single_g False) 10000 3 = Inr (0, 0)"
    by (simp add: locate_def outside_def locate_x_def np_get_def np_index_def single_g_def)
  have 2: "find_derivs (single_g False) (0, 0) show = Inl (IndexError bounds_msg)" for "show"
    unfolding find_derivs_def fs
    by (simp add: derivs_row_def derivs_probe_def np_get2_def np_get_def np_index_def
        single_g_def stencil_of_def occupied_def isinstance_Node_def)
  have 3: "find_derivs (demo_g False) (1, 0) True = Inl (IndexError bounds_msg)"
    unfolding find_derivs_def fd
    by (simp add: derivs_row_def derivs_probe_def np_get2_def np_get_def np_index_def
        demo_g_def stencil_of_def occupied_def isinstance_Node_def)
  have 4: "find_derivs (demo_g False) (0, 0) True
       = Inr [Entry False, Entry False, Row_end, Entry False, Entry True, Row_end]"
    unfolding find_derivs_def fd
    by (simp add: derivs_row_def derivs_probe_def np_get2_def np_get_def np_index_def
        demo_g_def stencil_of_def occupied_def isinstance_Node_def)
  from 1 2 3 4 single_g_built [of False] demo_g_built [of False] show ?thesis by simp
qed

text \<open>
  C10. In a constructed grid \<open>find_neighbors\<close> returns a \<open>3 \<times> 3\<close> mask for every pair of
  integers \<open>(i, j)\<close>, in the index ranges or not, and never raises; every entry whose
  position \<open>(i + dh, j + dk)\<close> is outside the axis bounds is false, and when all nine
  positions are outside, the mask is all false.
\<close>

theorem find_neighbors_total:
  assumes "Grid_init files filenames dbg = Inr g"
  shows "\<exists>m. find_neighbors g (i, j) = Inr m \<and> shape 3 3 m
           \<and> (\<forall>dh \<in> {- 1, 0, 1}. \<forall>dk \<in> {- 1, 0, 1}.
                 \<not> (0 \<le> i + dh \<and> i + dh < int (n_Teff g) \<and> 0 \<le> j + dk \<and> j + dk < int (n_logg g))
                 \<longrightarrow> np_get2 m (dh + 1) (dk + 1) = Inr False)
           \<and> ((\<forall>dh \<in> {- 1, 0, 1}. \<forall>dk \<in> {- 1, 0, 1}.
                 \<not> (0 \<le> i + dh \<and> i + dh < int (n_Teff g) \<and> 0 \<le> j + dk \<and> j + dk < int (n_logg g)))
                 \<longrightarrow> m = np_full2 3 3 False)"
proof -
  let ?m = "stencil_of g (i, j)"
  have 1: "find_neighbors g (i, j) = Inr ?m"
    using assms by (rule Grid_init_find_neighbors)
  have 2: "shape 3 3 ?m" by (rule shape_stencil_of)
  have 3: "np_get2 ?m (dh + 1) (dk + 1) = Inr False"
    if "dh \<in> {- 1, 0, 1}" "dk \<in> {- 1, 0, 1}"
      "\<not> (0 \<le> i + dh \<and> i + dh < int (n_Teff g) \<and> 0 \<le> j + dk \<and> j + dk < int (n_logg g))"
    for dh dk
  proof -
    from that(3) have "\<not> occupied g (i + dh) (j + dk)" by (auto simp: occupied_def)
    with stencil_of_entry [OF that(1,2), of g "(i, j)"] show ?thesis by simp
  qed
  have 4: "?m = np_full2 3 3 False"
    if "\<forall>dh \<in> {- 1, 0, 1}. \<forall>dk \<in> {- 1, 0, 1}.
          \<not> (0 \<le> i + dh \<and> i + dh < int (n_Teff g) \<and> 0 \<le> j + dk \<and> j + dk < int (n_logg g))"
  proof (rule stencil_of_outside)
    show "\<forall>dh \<in> {- 1, 0, 1}. \<forall>dk \<in> {- 1, 0, 1}. \<not> occupied g (fst (i, j) + dh) (snd (i, j) + dk)"
    proof (intro ballI)
      fix dh dk :: int
      assume d: "dh \<in> {- 1, 0, 1}" "dk \<in> {- 1, 0, 1}"
      have "\<not> (0 \<le> i + dh \<and> i + dh < int (n_Teff g) \<and> 0 \<le> j + dk \<and> j + dk < int (n_logg g))"
        using that [rule_format, OF d] by blast
      then show "\<not> occupied g (fst (i, j) + dh) (snd (i, j) + dk)"
        by (auto simp: occupied_def)
    qed
  qed
  show ?thesis
  proof (intro exI [of _ ?m] conjI ballI impI)
    show "find_neighbors g (i, j) = Inr ?m" by (rule 1)
    show "shape 3 3 ?m" by (rule 2)
    show "np_get2 ?m (dh + 1) (dk + 1) = Inr False"
      if "dh \<in> {- 1, 0, 1}" "dk \<in> {- 1, 0, 1}"
        "\<not> (0 \<le> i + dh \<and> i + dh < int (n_Teff g) \<and> 0 \<le> j + dk \<and> j + dk < int (n_logg g))"
      for dh dk using that by (rule 3)
    show "?m = np_full2 3 3 False"
      if "\<forall>dh \<in> {- 1, 0, 1}. \<forall>dk \<in> {- 1, 0, 1}.
          \<not> (0 \<le> i + dh \<and> i + dh < int (n_Teff g) \<and> 0 \<le> j + dk \<and> j + dk < int (n_logg g))"
      using that by (rule 4)
  qed
qed

theorem find_neighbors_total_witness:
  "Grid_init demo_files [''a'', ''b'', ''c''] False = Inr (demo_g False)
   \<and> find_neighbors (demo_g False) (5, - 7) = Inr (np_full2 3 3 False)
   \<and> (\<exists>m. find_neighbors (demo_g False) (2, 1) = Inr m \<and> np_get2 m 2 0 = Inr False)"
proof -
  note g = demo_g_built [of False]
  have n: "n_Teff (demo_g False) = 2" "n_logg (demo_g False) = 2"
    by (simp_all add: demo_g_def)
  from find_neighbors_total [OF g, of 5 "- 7"] obtain m where
    m: "find_neighbors (demo_g False) (5, - 7) = Inr m"
       "(\<forall>dh \<in> {- 1, 0, 1}. \<forall>dk \<in> {- 1, 0, 1}.
           \<not> (0 \<le> 5 + dh \<and> 5 + dh < int (n_Teff (demo_g False))
              \<and> 0 \<le> - 7 + dk \<and> - 7 + dk < int (n_logg (demo_g False))))
        \<longrightarrow> m = np_full2 3 3 False"
    by (elim exE conjE) (rule that, assumption+)
  from m(2) have "m = np_full2 3 3 False" by (simp add: n)
  with m(1) have 1: "find_neighbors (demo_g False) (5, - 7) = Inr (np_full2 3 3 False)"
    by simp
  from find_neighbors_total [OF g, of 2 1] obtain m' where
    m': "find_neighbors (demo_g False) (2, 1) = Inr m'"
        "\<forall>dh \<in> {- 1, 0, 1}. \<forall>dk \<in> {- 1, 0, 1}.
           \<not> (0 \<le> 2 + dh \<and> 2 + dh < int (n_Teff (demo_g False))
              \<and> 0 \<le> 1 + dk \<and> 1 + dk < int (n_logg (demo_g False)))
           \<longrightarrow> np_get2 m' (dh + 1) (dk + 1) = Inr False"
    by (elim exE conjE) (rule that, assumption+)
  from m'(2) [rule_format, of 1 "- 1"] have "np_get2 m' 2 0 = Inr False"
    by (simp add: n)
  with m'(1) have 2: "\<exists>m. find_neighbors (demo_g False) (2, 1) = Inr m \<and> np_get2 m 2 0 = Inr False"
    by blast
  from g 1 2 show ?thesis by blast
qed

end
